theory Spec2Isabelle
  imports Main
begin

section \<open>The S3 file sync monitor (module3/scripts/s3\_file\_monitor.py)\<close>

text \<open>
  A shallow embedding of \<^verbatim>\<open>s3_file_monitor.py\<close>: the watchdog event handler
  \<^verbatim>\<open>S3FileHandler\<close>, the helpers \<^verbatim>\<open>create_s3_client\<close> and
  \<^verbatim>\<open>validate_bucket\<close>, and \<^verbatim>\<open>main\<close>.

  Strings are byte lists. Everything the script obtains from outside (the file system,
  the S3 service, the watchdog observer, the terminal) is a field of an environment
  record; every call that can raise returns the exception as a value. Everything the
  script does to the outside (log records, prints, S3 requests, observer calls) is
  appended to a trace, in the order of the source.
\<close>

subsection \<open>\<^verbatim>\<open>pathlib.Path\<close>: name and suffix\<close>

text \<open>
  \<^verbatim>\<open>str.split(sep)\<close> for a one-character separator: the pieces between the
  separators, empty pieces included; the empty string gives one empty piece.
\<close>

fun split_on :: "char \<Rightarrow> string \<Rightarrow> string list" where
  "split_on c [] = [[]]"
| "split_on c (x # xs) =
     (if x = c then [] # split_on c xs
      else (case split_on c xs of
              [] \<Rightarrow> [[x]]
            | w # ws \<Rightarrow> (x # w) # ws))"

text \<open>
  The parsed components of a POSIX path (\<^verbatim>\<open>PurePath._parse_path\<close>): the path is
  split at \<^verbatim>\<open>/\<close>, and the empty pieces and the pieces \<^verbatim>\<open>.\<close> are left out
  (\<^verbatim>\<open>[x for x in rel.split(sep) if x and x != '.']\<close>). The root consists of
  leading separators only, so it contributes no piece.
\<close>

definition path_tail :: "string \<Rightarrow> string list" where
  "path_tail p = filter (\<lambda>x. x \<noteq> [] \<and> x \<noteq> ''.'') (split_on (CHR ''/'') p)"

text \<open>\<^verbatim>\<open>Path(p).name\<close>: the last component, or the empty string when there is none.\<close>

definition path_name :: "string \<Rightarrow> string" where
  "path_name p = (let tail = path_tail p in if tail = [] then [] else last tail)"

text \<open>\<^verbatim>\<open>str.rfind(c)\<close>: the highest index of \<open>c\<close>, or \<open>-1\<close>.\<close>

definition rfind :: "char \<Rightarrow> string \<Rightarrow> int" where
  "rfind c s =
     (if c \<in> set s
      then int (length s) - 1 - int (length (takeWhile (\<lambda>x. x \<noteq> c) (rev s)))
      else - 1)"

text \<open>
  \<^verbatim>\<open>Path(p).suffix\<close>, as pathlib of CPython 3.12 computes it:
  \<^verbatim>\<open>i = name.rfind('.'); return name[i:] if 0 < i < len(name) - 1 else ''\<close>.
  A name that starts with its only dot, or ends with a dot, has no suffix.
\<close>

definition path_suffix :: "string \<Rightarrow> string" where
  "path_suffix p =
     (let name = path_name p; i = rfind (CHR ''.'') name
      in if 0 < i \<and> i < int (length name) - 1 then drop (nat i) name else [])"

subsection \<open>\<^verbatim>\<open>str.lower\<close>\<close>

text \<open>
  On the letters A to Z \<^verbatim>\<open>str.lower\<close> gives a to z; every other byte is kept. (No
  character outside ASCII lowers to a letter that occurs in an extension of the table
  below, so the bytes outside ASCII do not matter for the lookup.)
\<close>

definition lower_char :: "char \<Rightarrow> char" where
  "lower_char c =
     (case map_of (zip ''ABCDEFGHIJKLMNOPQRSTUVWXYZ'' ''abcdefghijklmnopqrstuvwxyz'') c of
        None \<Rightarrow> c
      | Some d \<Rightarrow> d)"

definition lower :: "string \<Rightarrow> string" where
  "lower s = map lower_char s"

subsection \<open>\<^verbatim>\<open>S3FileHandler._get_content_type\<close>\<close>

text \<open>The dictionary \<^verbatim>\<open>content_types\<close>, in the order of the source.\<close>

definition content_types :: "(string \<times> string) list" where
  "content_types =
     [(''.txt'', ''text/plain''),
      (''.json'', ''application/json''),
      (''.xml'', ''application/xml''),
      (''.html'', ''text/html''),
      (''.css'', ''text/css''),
      (''.js'', ''application/javascript''),
      (''.jpg'', ''image/jpeg''),
      (''.jpeg'', ''image/jpeg''),
      (''.png'', ''image/png''),
      (''.gif'', ''image/gif''),
      (''.pdf'', ''application/pdf''),
      (''.doc'', ''application/msword''),
      (''.docx'', ''application/vnd.openxmlformats-officedocument.wordprocessingml.document''),
      (''.xls'', ''application/vnd.ms-excel''),
      (''.xlsx'', ''application/vnd.openxmlformats-officedocument.spreadsheetml.sheet''),
      (''.zip'', ''application/zip''),
      (''.tar'', ''application/x-tar''),
      (''.gz'', ''application/gzip'')]"

text \<open>
  \<^verbatim>\<open>extension = Path(file_path).suffix.lower()\<close>, then
  \<^verbatim>\<open>content_types.get(extension, 'application/octet-stream')\<close>.
\<close>

definition get_content_type :: "string \<Rightarrow> string" where
  "get_content_type file_path =
     (let extension = lower (path_suffix file_path)
      in case map_of content_types extension of
           None \<Rightarrow> ''application/octet-stream''
         | Some mime \<Rightarrow> mime)"

subsection \<open>Exceptions, log records and the trace of effects\<close>

text \<open>
  The subclasses of \<^verbatim>\<open>Exception\<close> that the script tells apart, and one
  constructor for all the others (by class name: \<^verbatim>\<open>PermissionError\<close>,
  \<^verbatim>\<open>EndpointConnectionError\<close>, ...). A \<^verbatim>\<open>ClientError\<close> carries
  \<^verbatim>\<open>e.response['Error']['Code']\<close>, which botocore always fills in.
\<close>

datatype exn =
    ClientError string
  | NoCredentialsError
  | FileNotFoundError
  | IndexError
  | OtherException string

datatype level = INFO | ERROR

text \<open>
  One constructor for each format string passed to \<^verbatim>\<open>logger.info\<close> or
  \<^verbatim>\<open>logger.error\<close>, with the values it interpolates (the leading pictograph is
  left out).
\<close>

datatype message =
    Handler_initialized string string
  | File_event string string nat
  | Error_processing_file string exn
  | Successfully_uploaded string
  | S3_URL string
  | Bucket_does_not_exist string
  | Access_denied_to_bucket string
  | S3_upload_error exn
  | File_not_found string
  | Unexpected_error_uploading string exn
  | AWS_S3_connection_successful
  | AWS_credentials_not_found
  | Please_configure_AWS_credentials
  | Hint_AWS_CLI
  | Hint_environment_variables
  | Hint_IAM_roles
  | Failed_to_create_S3_client exn
  | Bucket_exists_and_is_accessible string
  | Error_accessing_bucket exn
  | Watch_path_does_not_exist string
  | Watch_path_is_not_a_directory string
  | Monitoring_folder string
  | S3_Bucket string
  | S3_Prefix string
  | Starting_file_monitoring
  | Stopping_file_monitor
  | File_monitor_stopped
  | AWS_credentials_required
  | Unexpected_error exn

text \<open>The keyword arguments of \<^verbatim>\<open>s3_client.put_object\<close>.\<close>

record put_request =
  Bucket :: string
  Key :: string
  Body :: string
  ContentType :: string

text \<open>
  What \<^verbatim>\<open>main\<close> prints, one constructor for each run of \<^verbatim>\<open>print\<close> calls
  that follow each other: the two lines of the banner, the lines of the usage, and the
  lines that say that monitoring has started (with the absolute watch path).
\<close>

datatype printed =
    Banner
  | Usage
  | Monitoring_started string

text \<open>
  The effects: a log record, printed lines, a call of the S3 client
  (\<^verbatim>\<open>put_object\<close> with its arguments, \<^verbatim>\<open>boto3.client('s3')\<close>,
  \<^verbatim>\<open>list_buckets\<close>, \<^verbatim>\<open>head_bucket\<close> with the bucket), a call of the
  observer (\<^verbatim>\<open>schedule\<close> with the path and the \<^verbatim>\<open>recursive\<close> flag,
  \<^verbatim>\<open>start\<close>, \<^verbatim>\<open>stop\<close>, \<^verbatim>\<open>join\<close>), and a completed
  \<^verbatim>\<open>time.sleep\<close> with its seconds.
\<close>

datatype action =
    Log level message
  | Print printed
  | Put_object put_request
  | Boto3_client
  | List_buckets
  | Head_bucket string
  | Observer_schedule string bool
  | Observer_start
  | Observer_stop
  | Observer_join
  | Sleep nat

text \<open>
  How a call ends: it returns a value, it raises an \<^verbatim>\<open>Exception\<close>, or it
  raises \<^verbatim>\<open>SystemExit\<close> (\<^verbatim>\<open>sys.exit(n)\<close>), which is no
  \<^verbatim>\<open>Exception\<close> and passes every \<^verbatim>\<open>except Exception\<close>.
\<close>

datatype 'a result =
    Return 'a
  | Raise exn
  | Sys_exit nat

text \<open>A computation: the effects it had, in order, and how it ended.\<close>

type_synonym 'a comp = "action list \<times> 'a result"

definition ret :: "'a \<Rightarrow> 'a comp" where
  "ret x = ([], Return x)"

definition raise :: "exn \<Rightarrow> 'a comp" where
  "raise e = ([], Raise e)"

definition sys_exit :: "nat \<Rightarrow> 'a comp" where
  "sys_exit n = ([], Sys_exit n)"

definition emit :: "action \<Rightarrow> unit comp" where
  "emit a = ([a], Return ())"

definition logger_info :: "message \<Rightarrow> unit comp" where
  "logger_info m = emit (Log INFO m)"

definition logger_error :: "message \<Rightarrow> unit comp" where
  "logger_error m = emit (Log ERROR m)"

text \<open>An outside call: its action is recorded, then it returns or raises.\<close>

definition call :: "action \<Rightarrow> exn + 'a \<Rightarrow> 'a comp" where
  "call a r = ([a], case r of Inl e \<Rightarrow> Raise e | Inr x \<Rightarrow> Return x)"

definition call_unit :: "action \<Rightarrow> exn option \<Rightarrow> unit comp" where
  "call_unit a r = ([a], case r of Some e \<Rightarrow> Raise e | None \<Rightarrow> Return ())"

text \<open>Sequencing: the second statement runs only when the first returned.\<close>

definition bind :: "'a comp \<Rightarrow> ('a \<Rightarrow> 'b comp) \<Rightarrow> 'b comp" where
  "bind m f =
     (case m of
        (tr, Return x) \<Rightarrow> (case f x of (tr', r) \<Rightarrow> (tr @ tr', r))
      | (tr, Raise e) \<Rightarrow> (tr, Raise e)
      | (tr, Sys_exit n) \<Rightarrow> (tr, Sys_exit n))"

text \<open>
  \<^verbatim>\<open>try: m except ...: h\<close>. The handler \<open>h\<close> gives the body of the first
  \<^verbatim>\<open>except\<close> clause that matches the exception, or \<open>None\<close> when no clause
  matches; then, and on \<^verbatim>\<open>SystemExit\<close>, the exception passes through.
\<close>

definition try_except :: "'a comp \<Rightarrow> (exn \<Rightarrow> 'a comp option) \<Rightarrow> 'a comp" where
  "try_except m h =
     (case m of
        (tr, Raise e) \<Rightarrow>
          (case h e of
             None \<Rightarrow> (tr, Raise e)
           | Some (tr', r) \<Rightarrow> (tr @ tr', r))
      | (tr, r) \<Rightarrow> (tr, r))"

subsection \<open>\<^verbatim>\<open>S3FileHandler\<close>\<close>

text \<open>
  What the handler finds outside while it handles one event: the size reported by
  \<^verbatim>\<open>Path(p).stat().st_size\<close>, the bytes read from \<^verbatim>\<open>open(p, 'rb')\<close>,
  and how a call of \<^verbatim>\<open>s3_client.put_object\<close> with a request ends (\<open>None\<close>:
  it returns; what the client library does inside the call is not part of the script).
  Each event comes with an environment of its own, so the file system and the store
  may change between events, and the file may vanish between \<^verbatim>\<open>stat\<close> and
  \<^verbatim>\<open>open\<close>.
\<close>

record env =
  stat_size :: "string \<Rightarrow> exn + nat"
  open_rb :: "string \<Rightarrow> exn + string"
  put_object :: "put_request \<Rightarrow> exn option"

record handler =
  bucket_name :: string
  s3_prefix :: string

text \<open>\<^verbatim>\<open>str.rstrip(c)\<close> for one character.\<close>

definition rstrip :: "char \<Rightarrow> string \<Rightarrow> string" where
  "rstrip c s = rev (dropWhile (\<lambda>x. x = c) (rev s))"

text \<open>
  \<^verbatim>\<open>__init__\<close>:
  \<^verbatim>\<open>self.s3_prefix = s3_prefix.rstrip('/') + '/' if s3_prefix else ""\<close>.
\<close>

definition S3FileHandler :: "string \<Rightarrow> string \<Rightarrow> handler comp" where
  "S3FileHandler bucket prefix =
     (let self = \<lparr>bucket_name = bucket,
                  s3_prefix = (if prefix \<noteq> [] then rstrip (CHR ''/'') prefix @ ''/'' else [])\<rparr>
      in bind (logger_info (Handler_initialized bucket (s3_prefix self))) (\<lambda>_. ret self))"

text \<open>The \<^verbatim>\<open>except\<close> clauses of \<^verbatim>\<open>_upload_to_s3\<close>, in the order of the source.\<close>

definition upload_except :: "handler \<Rightarrow> string \<Rightarrow> string \<Rightarrow> exn \<Rightarrow> unit comp option" where
  "upload_except self local_path file_name e =
     (case e of
        ClientError error_code \<Rightarrow>
          Some (if error_code = ''NoSuchBucket''
                then logger_error (Bucket_does_not_exist (bucket_name self))
                else if error_code = ''AccessDenied''
                then logger_error (Access_denied_to_bucket (bucket_name self))
                else logger_error (S3_upload_error e))
      | FileNotFoundError \<Rightarrow> Some (logger_error (File_not_found local_path))
      | _ \<Rightarrow> Some (logger_error (Unexpected_error_uploading file_name e)))"

definition upload_to_s3 :: "env \<Rightarrow> handler \<Rightarrow> string \<Rightarrow> string \<Rightarrow> string \<Rightarrow> unit comp" where
  "upload_to_s3 world self local_path s3_key file_name =
     try_except
       (let content_type = get_content_type local_path
        in case open_rb world local_path of
             Inl e \<Rightarrow> raise e
           | Inr file_data \<Rightarrow>
               (let request = \<lparr>Bucket = bucket_name self, Key = s3_key,
                                Body = file_data, ContentType = content_type\<rparr>
                in bind (call_unit (Put_object request) (put_object world request)) (\<lambda>_.
                   let s3_url = ''https://'' @ bucket_name self @ ''.s3.amazonaws.com/'' @ s3_key
                   in bind (logger_info (Successfully_uploaded file_name)) (\<lambda>_.
                      logger_info (S3_URL s3_url)))))
       (upload_except self local_path file_name)"

definition handle_file_event :: "env \<Rightarrow> handler \<Rightarrow> string \<Rightarrow> string \<Rightarrow> unit comp" where
  "handle_file_event world self file_path event_type =
     try_except
       (let file_name = path_name file_path
        in case stat_size world file_path of
             Inl e \<Rightarrow> raise e
           | Inr file_size \<Rightarrow>
               (let s3_key = s3_prefix self @ file_name
                in bind (logger_info (File_event event_type file_name file_size)) (\<lambda>_.
                   upload_to_s3 world self file_path s3_key file_name)))
       (\<lambda>e. Some (logger_error (Error_processing_file file_path e)))"

text \<open>The fields of a watchdog event that the handler reads.\<close>

record event =
  src_path :: string
  is_directory :: bool

definition on_created :: "env \<Rightarrow> handler \<Rightarrow> event \<Rightarrow> unit comp" where
  "on_created world self ev =
     (if \<not> is_directory ev then handle_file_event world self (src_path ev) ''created''
      else ret ())"

definition on_modified :: "env \<Rightarrow> handler \<Rightarrow> event \<Rightarrow> unit comp" where
  "on_modified world self ev =
     (if \<not> is_directory ev then handle_file_event world self (src_path ev) ''modified''
      else ret ())"

subsection \<open>The observer thread\<close>

text \<open>
  \<^verbatim>\<open>S3FileHandler\<close> overrides the hooks \<^verbatim>\<open>on_created\<close> and
  \<^verbatim>\<open>on_modified\<close> of watchdog's \<^verbatim>\<open>FileSystemEventHandler\<close>; the observer
  thread calls the hook of each event's kind, one event after the other. An exception
  that left a hook would end the thread: the events after it would not be handled.
\<close>

datatype kind = Created | Modified

definition dispatch :: "env \<Rightarrow> handler \<Rightarrow> kind \<Rightarrow> event \<Rightarrow> unit comp" where
  "dispatch world self k ev =
     (case k of
        Created \<Rightarrow> on_created world self ev
      | Modified \<Rightarrow> on_modified world self ev)"

fun run_events :: "handler \<Rightarrow> (env \<times> kind \<times> event) list \<Rightarrow> unit comp" where
  "run_events self [] = ret ()"
| "run_events self ((world, k, ev) # rest) =
     bind (dispatch world self k ev) (\<lambda>_. run_events self rest)"

subsection \<open>\<^verbatim>\<open>create_s3_client\<close>, \<^verbatim>\<open>validate_bucket\<close> and \<^verbatim>\<open>main\<close>\<close>

text \<open>
  What \<^verbatim>\<open>main\<close> finds outside: \<^verbatim>\<open>os.path.exists\<close>, \<^verbatim>\<open>os.path.isdir\<close>,
  \<^verbatim>\<open>os.path.abspath\<close>; whether \<^verbatim>\<open>boto3.client('s3')\<close> raises; the names in
  \<^verbatim>\<open>list_buckets()['Buckets']\<close>, in order; the answer to \<^verbatim>\<open>head_bucket\<close>;
  whether \<^verbatim>\<open>observer.schedule\<close> and \<^verbatim>\<open>observer.start\<close> raise; the events the
  observer delivers; and the number of \<^verbatim>\<open>time.sleep(1)\<close> calls that complete
  before Ctrl+C (\<open>None\<close>: it never comes).
\<close>

record sys_env =
  path_exists :: "string \<Rightarrow> bool"
  path_isdir :: "string \<Rightarrow> bool"
  abspath :: "string \<Rightarrow> string"
  boto3_client :: "exn option"
  list_buckets :: "exn + string list"
  head_bucket :: "string \<Rightarrow> exn option"
  observer_schedule :: "string \<Rightarrow> bool \<Rightarrow> exn option"
  observer_start :: "exn option"
  fs_events :: "(env \<times> kind \<times> event) list"
  keyboard_interrupt :: "nat option"

text \<open>
  \<^verbatim>\<open>s3_client.head_bucket(Bucket=s3_client.list_buckets()['Buckets'][0]['Name'])\<close>:
  the argument is evaluated first, and indexing an empty list raises
  \<^verbatim>\<open>IndexError\<close>. Both \<^verbatim>\<open>except\<close> clauses log and raise the exception again.
\<close>

definition create_s3_client :: "sys_env \<Rightarrow> unit comp" where
  "create_s3_client sys =
     try_except
       (bind (call_unit Boto3_client (boto3_client sys)) (\<lambda>_.
        bind (call List_buckets (list_buckets sys)) (\<lambda>buckets.
        bind (case buckets of [] \<Rightarrow> raise IndexError | name # _ \<Rightarrow> ret name) (\<lambda>name.
        bind (call_unit (Head_bucket name) (head_bucket sys name)) (\<lambda>_.
        logger_info AWS_S3_connection_successful)))))
       (\<lambda>e. case e of
          NoCredentialsError \<Rightarrow>
            Some (bind (logger_error AWS_credentials_not_found) (\<lambda>_.
                  bind (logger_error Please_configure_AWS_credentials) (\<lambda>_.
                  bind (logger_error Hint_AWS_CLI) (\<lambda>_.
                  bind (logger_error Hint_environment_variables) (\<lambda>_.
                  bind (logger_error Hint_IAM_roles) (\<lambda>_.
                  raise e))))))
        | _ \<Rightarrow>
            Some (bind (logger_error (Failed_to_create_S3_client e)) (\<lambda>_. raise e)))"

text \<open>Only \<^verbatim>\<open>ClientError\<close> is caught here; any other exception passes through.\<close>

definition validate_bucket :: "sys_env \<Rightarrow> string \<Rightarrow> bool comp" where
  "validate_bucket sys bucket =
     try_except
       (bind (call_unit (Head_bucket bucket) (head_bucket sys bucket)) (\<lambda>_.
        bind (logger_info (Bucket_exists_and_is_accessible bucket)) (\<lambda>_.
        ret True)))
       (\<lambda>e. case e of
          ClientError error_code \<Rightarrow>
            Some (bind (if error_code = ''NoSuchBucket''
                        then logger_error (Bucket_does_not_exist bucket)
                        else if error_code = ''AccessDenied''
                        then logger_error (Access_denied_to_bucket bucket)
                        else logger_error (Error_accessing_bucket e)) (\<lambda>_.
                  ret False))
        | _ \<Rightarrow> None)"

text \<open>
  \<^verbatim>\<open>while True: time.sleep(1)\<close> inside \<^verbatim>\<open>try ... except KeyboardInterrupt\<close>.
  The loop ends only by Ctrl+C, so it takes fuel: \<open>None\<close> means that the loop is
  still running when the fuel is used up. The third argument counts the sleeps done.
\<close>

fun keep_running :: "nat \<Rightarrow> nat option \<Rightarrow> nat \<Rightarrow> unit comp option" where
  "keep_running 0 interrupt n = None"
| "keep_running (Suc fuel) interrupt n =
     (if interrupt = Some n
      then Some (bind (logger_info Stopping_file_monitor) (\<lambda>_.
                 bind (emit Observer_stop) (\<lambda>_.
                 bind (emit Observer_join) (\<lambda>_.
                 logger_info File_monitor_stopped))))
      else map_option (\<lambda>(tr, r). (Sleep 1 # tr, r)) (keep_running fuel interrupt (Suc n)))"

text \<open>Sequencing with a rest that may not return.\<close>

definition bind_opt :: "'a comp \<Rightarrow> ('a \<Rightarrow> 'b comp option) \<Rightarrow> 'b comp option" where
  "bind_opt m f =
     (case m of
        (tr, Return x) \<Rightarrow> map_option (\<lambda>(tr', r). (tr @ tr', r)) (f x)
      | (tr, Raise e) \<Rightarrow> Some (tr, Raise e)
      | (tr, Sys_exit n) \<Rightarrow> Some (tr, Sys_exit n))"

text \<open>
  The events are handled in the observer's thread while the main thread sleeps; their
  effects are listed before the sleeps. An exception in the observer's thread would
  not reach the main thread.
\<close>

definition observer_thread :: "handler \<Rightarrow> (env \<times> kind \<times> event) list \<Rightarrow> unit comp" where
  "observer_thread event_handler evs = (fst (run_events event_handler evs), Return ())"

text \<open>The two \<^verbatim>\<open>except\<close> clauses at the end of \<^verbatim>\<open>main\<close>.\<close>

definition main_except :: "exn \<Rightarrow> unit comp option" where
  "main_except e =
     (case e of
        NoCredentialsError \<Rightarrow>
          Some (bind (logger_error AWS_credentials_required) (\<lambda>_. sys_exit 1))
      | _ \<Rightarrow> Some (bind (logger_error (Unexpected_error e)) (\<lambda>_. sys_exit 1)))"

text \<open>\<^verbatim>\<open>main\<close>; \<open>argv\<close> is \<^verbatim>\<open>sys.argv\<close>, the name of the script first.\<close>

definition main :: "nat \<Rightarrow> string list \<Rightarrow> sys_env \<Rightarrow> unit comp option" where
  "main fuel argv sys =
     bind_opt (emit (Print Banner)) (\<lambda>_.
     if length argv < 3 then Some (bind (emit (Print Usage)) (\<lambda>_. sys_exit 1))
     else
       let watch_path = argv ! 1;
           bucket = argv ! 2;
           prefix = (if length argv > 3 then argv ! 3 else [])
       in
       if \<not> path_exists sys watch_path
       then Some (bind (logger_error (Watch_path_does_not_exist watch_path)) (\<lambda>_. sys_exit 1))
       else if \<not> path_isdir sys watch_path
       then Some (bind (logger_error (Watch_path_is_not_a_directory watch_path)) (\<lambda>_. sys_exit 1))
       else
         bind_opt (logger_info (Monitoring_folder (abspath sys watch_path))) (\<lambda>_.
         bind_opt (logger_info (S3_Bucket bucket)) (\<lambda>_.
         bind_opt (logger_info (S3_Prefix (if prefix \<noteq> [] then prefix else ''(root)''))) (\<lambda>_.
         map_option (\<lambda>m. try_except m main_except)
           (bind_opt (create_s3_client sys) (\<lambda>_.
            bind_opt (validate_bucket sys bucket) (\<lambda>valid.
            bind_opt (if \<not> valid then sys_exit 1 else ret ()) (\<lambda>_.
            bind_opt (S3FileHandler bucket prefix) (\<lambda>event_handler.
            bind_opt (call_unit (Observer_schedule watch_path True)
                        (observer_schedule sys watch_path True)) (\<lambda>_.
            bind_opt (logger_info Starting_file_monitoring) (\<lambda>_.
            bind_opt (emit (Print (Monitoring_started (abspath sys watch_path)))) (\<lambda>_.
            bind_opt (call_unit Observer_start (observer_start sys)) (\<lambda>_.
            bind_opt (observer_thread event_handler (fs_events sys)) (\<lambda>_.
            keep_running fuel (keyboard_interrupt sys) 0))))))))))))))"

text \<open>
  The exit status of the process: 0 when \<^verbatim>\<open>main\<close> returns, the argument of
  \<^verbatim>\<open>sys.exit\<close>, and 1 when an exception is not caught.
\<close>

definition exit_code :: "unit result \<Rightarrow> nat" where
  "exit_code r = (case r of Return _ \<Rightarrow> 0 | Raise _ \<Rightarrow> 1 | Sys_exit n \<Rightarrow> n)"

subsection \<open>Reading a trace\<close>

fun put_requests :: "action list \<Rightarrow> put_request list" where
  "put_requests [] = []"
| "put_requests (Put_object r # tr) = r # put_requests tr"
| "put_requests (_ # tr) = put_requests tr"

fun error_records :: "action list \<Rightarrow> message list" where
  "error_records [] = []"
| "error_records (Log ERROR m # tr) = m # error_records tr"
| "error_records (_ # tr) = error_records tr"

text \<open>Every action but a call of \<^verbatim>\<open>observer.schedule\<close>.\<close>

definition not_schedule :: "action \<Rightarrow> bool" where
  "not_schedule a = (case a of Observer_schedule _ _ \<Rightarrow> False | _ \<Rightarrow> True)"

subsection \<open>Example inputs\<close>

text \<open>
  The handler of \<^verbatim>\<open>python s3_file_monitor.py ./docs bucket up/\<close>, and a world in
  which every path is a file with the given bytes and the store gives the given answer
  to every request.
\<close>

definition docs_handler :: handler where
  "docs_handler = \<lparr>bucket_name = ''bucket'', s3_prefix = ''up/''\<rparr>"

definition example_world :: "string \<Rightarrow> exn option \<Rightarrow> env" where
  "example_world file_data answer =
     \<lparr>stat_size = (\<lambda>_. Inr (length file_data)),
      open_rb = (\<lambda>_. Inr file_data),
      put_object = (\<lambda>_. answer)\<rparr>"

text \<open>
  A machine on which only \<^verbatim>\<open>./docs\<close> is a directory, the account owns the given
  buckets, every \<^verbatim>\<open>head_bucket\<close> succeeds, the observer starts, no event arrives
  and Ctrl+C comes during the first sleep.
\<close>

definition example_sys :: "string list \<Rightarrow> sys_env" where
  "example_sys buckets =
     \<lparr>path_exists = (\<lambda>p. p = ''./docs'' \<or> p = ''./notes.txt''),
      path_isdir = (\<lambda>p. p = ''./docs''),
      abspath = (\<lambda>p. ''/home/user/'' @ drop 2 p),
      boto3_client = None,
      list_buckets = Inr buckets,
      head_bucket = (\<lambda>_. None),
      observer_schedule = (\<lambda>_ _. None),
      observer_start = None,
      fs_events = [],
      keyboard_interrupt = Some 0\<rparr>"

section \<open>Properties\<close>

subsection \<open>Path names and suffixes\<close>

lemma split_on_not_Nil: "split_on c s \<noteq> []"
  by (induction s) (auto split: list.splits)

lemma split_on_no_sep: "c \<notin> set s \<Longrightarrow> split_on c s = [s]"
  by (induction s) auto

lemma split_on_append: "split_on c (a @ c # b) = split_on c a @ split_on c b"
proof (induction a)
  case Nil
  show ?case by simp
next
  case (Cons x a)
  show ?case
  proof (cases "x = c")
    case True
    with Cons show ?thesis by simp
  next
    case False
    obtain w ws where w: "split_on c a = w # ws"
      using split_on_not_Nil [of c a] by (cases "split_on c a") auto
    with False Cons show ?thesis by simp
  qed
qed

lemma path_tail_join:
  assumes "f \<noteq> []" and "f \<noteq> ''.''" and "CHR ''/'' \<notin> set f"
  shows "path_tail (d @ ''/'' @ f) = path_tail d @ [f]"
  using assms by (simp add: path_tail_def split_on_append split_on_no_sep)

lemma path_name_join:
  assumes "f \<noteq> []" and "f \<noteq> ''.''" and "CHR ''/'' \<notin> set f"
  shows "path_name (d @ ''/'' @ f) = f"
  using path_tail_join [OF assms] by (simp add: path_name_def)

lemma path_name_bare:
  assumes "f \<noteq> []" and "f \<noteq> ''.''" and "CHR ''/'' \<notin> set f"
  shows "path_name f = f"
  using assms by (simp add: path_name_def path_tail_def split_on_no_sep)

lemma rfind_last_dot:
  assumes "c \<notin> set e"
  shows "rfind c (stem @ c # e) = int (length stem)"
proof -
  have "takeWhile (\<lambda>x. x \<noteq> c) (xs @ c # ys) = xs" if "c \<notin> set xs" for xs ys
    using that by (induction xs) auto
  from this [of "rev e" "rev stem"] assms show ?thesis
    by (simp add: rfind_def)
qed

lemma suffix_of_name:
  assumes "stem \<noteq> []" and "e \<noteq> []" and "CHR ''.'' \<notin> set e"
    and "path_name p = stem @ CHR ''.'' # e"
  shows "path_suffix p = CHR ''.'' # e"
  using assms by (cases e) (simp_all add: path_suffix_def rfind_last_dot)

lemma lower_char_dot: "lower_char (CHR ''.'') = CHR ''.''"
  by (simp add: lower_char_def)

lemma distinct_keys: "distinct (map fst content_types)"
  by (simp add: content_types_def)

lemma lookup_in_table:
  assumes "(lower (path_suffix p), m) \<in> set content_types"
  shows "get_content_type p = m"
  using assms distinct_keys by (simp add: get_content_type_def)

lemma lookup_default:
  assumes "lower (path_suffix p) \<notin> fst ` set content_types"
  shows "get_content_type p = ''application/octet-stream''"
proof -
  have "map_of content_types (lower (path_suffix p)) = None"
    using assms by (simp add: map_of_eq_None_iff)
  then show ?thesis by (simp add: get_content_type_def)
qed

lemma Nil_not_key: "[] \<notin> fst ` set content_types"
  by (simp add: content_types_def)

lemma result_in_table:
  "get_content_type p \<in> snd ` set content_types \<union> {''application/octet-stream''}"
proof (cases "map_of content_types (lower (path_suffix p))")
  case None
  then show ?thesis by (simp add: get_content_type_def)
next
  case (Some m)
  then have "(lower (path_suffix p), m) \<in> set content_types"
    by (rule map_of_SomeD)
  then have "m \<in> snd ` set content_types" by force
  with Some show ?thesis by (simp add: get_content_type_def)
qed

subsection \<open>Computations\<close>

lemma bind_Return: "bind (tr, Return x) f = (tr @ fst (f x), snd (f x))"
  by (simp add: bind_def split: prod.splits)

lemma bind_Raise: "bind (tr, Raise e) f = (tr, Raise e)"
  by (simp add: bind_def)

lemma bind_Sys_exit: "bind (tr, Sys_exit n) f = (tr, Sys_exit n)"
  by (simp add: bind_def)

lemma try_except_Return: "try_except (tr, Return x) h = (tr, Return x)"
  by (simp add: try_except_def)

lemma try_except_Sys_exit: "try_except (tr, Sys_exit n) h = (tr, Sys_exit n)"
  by (simp add: try_except_def)

lemma try_except_Raise:
  "try_except (tr, Raise e) h = (case h e of None \<Rightarrow> (tr, Raise e) | Some c \<Rightarrow> (tr @ fst c, snd c))"
  by (simp add: try_except_def split: option.splits prod.splits)

lemmas comp_simps =
  bind_Return bind_Raise bind_Sys_exit try_except_Return try_except_Sys_exit try_except_Raise
  ret_def raise_def sys_exit_def emit_def logger_info_def logger_error_def call_def call_unit_def

lemma upload_except_logs: "\<exists>m. upload_except self p n e = Some ([Log ERROR m], Return ())"
  by (cases e) (simp_all add: upload_except_def comp_simps)

lemma upload_to_s3_open_fails:
  assumes "open_rb world p = Inl e"
  shows "\<exists>m. upload_to_s3 world self p k n = ([Log ERROR m], Return ())"
proof -
  obtain m where "upload_except self p n e = Some ([Log ERROR m], Return ())"
    using upload_except_logs by blast
  with assms show ?thesis by (simp add: upload_to_s3_def comp_simps)
qed

lemma upload_to_s3_vanished:
  assumes "open_rb world p = Inl FileNotFoundError"
  shows "upload_to_s3 world self p k n = ([Log ERROR (File_not_found p)], Return ())"
  using assms by (simp add: upload_to_s3_def upload_except_def comp_simps)

lemma upload_to_s3_put_fails:
  assumes "open_rb world p = Inr file_data"
    and "put_object world \<lparr>Bucket = bucket_name self, Key = k, Body = file_data,
           ContentType = get_content_type p\<rparr> = Some e"
  shows "\<exists>m. upload_to_s3 world self p k n =
               ([Put_object \<lparr>Bucket = bucket_name self, Key = k, Body = file_data,
                   ContentType = get_content_type p\<rparr>, Log ERROR m], Return ())"
proof -
  obtain m where "upload_except self p n e = Some ([Log ERROR m], Return ())"
    using upload_except_logs by blast
  with assms show ?thesis by (simp add: upload_to_s3_def comp_simps)
qed

lemma upload_to_s3_succeeds:
  assumes "open_rb world p = Inr file_data"
    and "put_object world \<lparr>Bucket = bucket_name self, Key = k, Body = file_data,
           ContentType = get_content_type p\<rparr> = None"
  shows "upload_to_s3 world self p k n =
           ([Put_object \<lparr>Bucket = bucket_name self, Key = k, Body = file_data,
               ContentType = get_content_type p\<rparr>,
             Log INFO (Successfully_uploaded n),
             Log INFO (S3_URL (''https://'' @ bucket_name self @ ''.s3.amazonaws.com/'' @ k))],
            Return ())"
  using assms by (simp add: upload_to_s3_def comp_simps)

lemma upload_to_s3_returns: "snd (upload_to_s3 world self p k n) = Return ()"
proof (cases "open_rb world p")
  case (Inl e)
  then show ?thesis using upload_to_s3_open_fails [of world p e self k n] by auto
next
  case (Inr file_data)
  show ?thesis
  proof (cases "put_object world \<lparr>Bucket = bucket_name self, Key = k, Body = file_data,
           ContentType = get_content_type p\<rparr>")
    case None
    with Inr show ?thesis by (simp add: upload_to_s3_succeeds)
  next
    case (Some e)
    with Inr show ?thesis using upload_to_s3_put_fails [of world p file_data self k e n] by auto
  qed
qed

lemma handle_file_event_stat_fails:
  assumes "stat_size world p = Inl e"
  shows "handle_file_event world self p et = ([Log ERROR (Error_processing_file p e)], Return ())"
  using assms by (simp add: handle_file_event_def comp_simps)

lemma handle_file_event_stat_ok:
  assumes "stat_size world p = Inr sz"
  shows "handle_file_event world self p et =
           (Log INFO (File_event et (path_name p) sz)
              # fst (upload_to_s3 world self p (s3_prefix self @ path_name p) (path_name p)),
            Return ())"
proof -
  obtain tr where "upload_to_s3 world self p (s3_prefix self @ path_name p) (path_name p) = (tr, Return ())"
    using upload_to_s3_returns [of world self p "s3_prefix self @ path_name p" "path_name p"]
    by (cases "upload_to_s3 world self p (s3_prefix self @ path_name p) (path_name p)") auto
  with assms show ?thesis by (simp add: handle_file_event_def comp_simps)
qed

lemma handle_file_event_returns: "snd (handle_file_event world self p et) = Return ()"
  by (cases "stat_size world p") (simp_all add: handle_file_event_stat_fails handle_file_event_stat_ok)

lemma dispatch_returns: "snd (dispatch world self k ev) = Return ()"
  by (cases k) (simp_all add: dispatch_def on_created_def on_modified_def handle_file_event_returns ret_def)

lemma run_events_returns: "snd (run_events self evs) = Return ()"
proof (induction evs)
  case Nil
  show ?case by (simp add: ret_def)
next
  case (Cons x evs)
  obtain world k ev where x: "x = (world, k, ev)" by (cases x) auto
  obtain tr where "dispatch world self k ev = (tr, Return ())"
    using dispatch_returns [of world self k ev] by (cases "dispatch world self k ev") auto
  with Cons x show ?case by (simp add: bind_Return)
qed

lemma run_events_Cons:
  "run_events self ((world, k, ev) # rest) =
     (fst (dispatch world self k ev) @ fst (run_events self rest), Return ())"
proof -
  obtain tr where "dispatch world self k ev = (tr, Return ())"
    using dispatch_returns [of world self k ev] by (cases "dispatch world self k ev") auto
  then show ?thesis by (simp add: bind_Return run_events_returns)
qed

lemma run_events_append:
  "run_events self (pre @ rest) = (fst (run_events self pre) @ fst (run_events self rest), Return ())"
proof (induction pre)
  case Nil
  show ?case using run_events_returns [of self rest] by (cases "run_events self rest") (simp add: ret_def)
next
  case (Cons x pre)
  obtain world k ev where x: "x = (world, k, ev)" by (cases x) auto
  from Cons show ?case unfolding x
    by (simp add: run_events_Cons del: run_events.simps)
qed

lemma put_requests_append: "put_requests (xs @ ys) = put_requests xs @ put_requests ys"
  by (induction xs rule: put_requests.induct) auto

lemma error_records_append: "error_records (xs @ ys) = error_records xs @ error_records ys"
  by (induction xs rule: error_records.induct) auto

subsection \<open>The content type\<close>

text \<open>
  Claim C4. \<^verbatim>\<open>_get_content_type\<close> returns a value for every path, and the value is
  an entry of the table or \<^verbatim>\<open>application/octet-stream\<close>: it is the entry of the
  lowered suffix when the table has one, and the default otherwise, in particular when
  the name has no suffix. A file \<open>stem.e\<close> in any directory gets the entry of
  \<open>.e\<close> lowered, whatever the case of its letters; \<^verbatim>\<open>b.json\<close> gets
  \<^verbatim>\<open>application/json\<close> and \<^verbatim>\<open>c.png\<close> gets \<^verbatim>\<open>image/png\<close>.
\<close>
theorem get_content_type_total_lookup:
  "get_content_type p \<in> snd ` set content_types \<union> {''application/octet-stream''}
   \<and> ((lower (path_suffix p), m) \<in> set content_types \<longrightarrow> get_content_type p = m)
   \<and> (lower (path_suffix p) \<notin> fst ` set content_types \<longrightarrow>
        get_content_type p = ''application/octet-stream'')
   \<and> (path_suffix p = [] \<longrightarrow> get_content_type p = ''application/octet-stream'')
   \<and> (stem \<noteq> [] \<and> e \<noteq> [] \<and> CHR ''.'' \<notin> set e \<and> CHR ''/'' \<notin> set stem \<union> set e
        \<and> (CHR ''.'' # lower e, m) \<in> set content_types \<longrightarrow>
        get_content_type (d @ ''/'' @ stem @ CHR ''.'' # e) = m)
   \<and> get_content_type ''b.json'' = ''application/json''
   \<and> get_content_type ''c.png'' = ''image/png''"
proof (intro conjI impI)
  show "get_content_type p \<in> snd ` set content_types \<union> {''application/octet-stream''}"
    by (rule result_in_table)
  show "get_content_type p = m" if "(lower (path_suffix p), m) \<in> set content_types"
    using that by (rule lookup_in_table)
  show "get_content_type p = ''application/octet-stream''"
    if "lower (path_suffix p) \<notin> fst ` set content_types"
    using that by (rule lookup_default)
  show "get_content_type p = ''application/octet-stream''" if "path_suffix p = []"
    using that Nil_not_key by (simp add: lookup_default lower_def)
  show "get_content_type (d @ ''/'' @ stem @ CHR ''.'' # e) = m"
    if h: "stem \<noteq> [] \<and> e \<noteq> [] \<and> CHR ''.'' \<notin> set e \<and> CHR ''/'' \<notin> set stem \<union> set e
        \<and> (CHR ''.'' # lower e, m) \<in> set content_types"
  proof -
    let ?f = "stem @ CHR ''.'' # e"
    have "path_name (d @ ''/'' @ ?f) = ?f"
      using h by (intro path_name_join) (auto simp: append_eq_Cons_conv)
    then have "path_suffix (d @ ''/'' @ ?f) = CHR ''.'' # e"
      using h by (intro suffix_of_name) auto
    then have "lower (path_suffix (d @ ''/'' @ ?f)) = CHR ''.'' # lower e"
      by (simp add: lower_def lower_char_dot)
    with h show ?thesis by (simp add: lookup_in_table)
  qed
  show "get_content_type ''b.json'' = ''application/json''" by code_simp
  show "get_content_type ''c.png'' = ''image/png''" by code_simp
qed

theorem get_content_type_total_lookup_witness:
  "get_content_type ''docs/Report.PDF'' = ''application/pdf''
   \<and> get_content_type ''docs/README'' = ''application/octet-stream''
   \<and> get_content_type ''docs/notes.yaml'' = ''application/octet-stream''"
proof -
  have 1: "(CHR ''.'' # lower ''PDF'', ''application/pdf'') \<in> set content_types"
    by (simp add: content_types_def lower_def lower_char_def)
  have 2: "path_suffix ''docs/README'' = []" by code_simp
  have 3: "lower (path_suffix ''docs/notes.yaml'') \<notin> fst ` set content_types"
    by (simp add: content_types_def lower_def lower_char_def path_suffix_def path_name_def path_tail_def rfind_def)
  show ?thesis
    using get_content_type_total_lookup [of "''docs/README''" "''application/pdf''" "''Report''" "''PDF''" "''docs''"]
      get_content_type_total_lookup [of "''docs/notes.yaml''" "''application/pdf''" "''Report''" "''PDF''" "''docs''"]
      1 2 3
    by simp
qed

subsection \<open>Handling one event\<close>

lemma handle_file_event_vanished_before_read:
  assumes "stat_size world p = Inr sz" and "open_rb world p = Inl FileNotFoundError"
  shows "handle_file_event world self p et =
           ([Log INFO (File_event et (path_name p) sz), Log ERROR (File_not_found p)], Return ())"
  using assms by (simp add: handle_file_event_stat_ok upload_to_s3_vanished)

lemma handle_file_event_open_fails:
  assumes "stat_size world p = Inr sz" and "open_rb world p = Inl e"
  shows "\<exists>m. handle_file_event world self p et =
           ([Log INFO (File_event et (path_name p) sz), Log ERROR m], Return ())"
  using assms upload_to_s3_open_fails [of world p e self "s3_prefix self @ path_name p" "path_name p"]
  by (auto simp: handle_file_event_stat_ok)

lemma handle_file_event_put_fails:
  assumes "stat_size world p = Inr sz" and "open_rb world p = Inr file_data"
    and "put_object world \<lparr>Bucket = bucket_name self, Key = s3_prefix self @ path_name p,
           Body = file_data, ContentType = get_content_type p\<rparr> = Some e"
  shows "\<exists>m. handle_file_event world self p et =
           ([Log INFO (File_event et (path_name p) sz),
             Put_object \<lparr>Bucket = bucket_name self, Key = s3_prefix self @ path_name p,
               Body = file_data, ContentType = get_content_type p\<rparr>,
             Log ERROR m], Return ())"
  using assms upload_to_s3_put_fails [of world p file_data self "s3_prefix self @ path_name p" e "path_name p"]
  by (auto simp: handle_file_event_stat_ok)

lemma handle_file_event_succeeds:
  assumes "stat_size world p = Inr sz" and "open_rb world p = Inr file_data"
    and "put_object world \<lparr>Bucket = bucket_name self, Key = s3_prefix self @ path_name p,
           Body = file_data, ContentType = get_content_type p\<rparr> = None"
  shows "handle_file_event world self p et =
           ([Log INFO (File_event et (path_name p) sz),
             Put_object \<lparr>Bucket = bucket_name self, Key = s3_prefix self @ path_name p,
               Body = file_data, ContentType = get_content_type p\<rparr>,
             Log INFO (Successfully_uploaded (path_name p)),
             Log INFO (S3_URL (''https://'' @ bucket_name self @ ''.s3.amazonaws.com/''
                                 @ s3_prefix self @ path_name p))],
            Return ())"
  using assms by (simp add: handle_file_event_stat_ok upload_to_s3_succeeds)

text \<open>Every request of an event is the one request for its path.\<close>

lemma handle_file_event_requests:
  "put_requests (fst (handle_file_event world self p et)) =
     (case (stat_size world p, open_rb world p) of
        (Inr sz, Inr file_data) \<Rightarrow>
          [\<lparr>Bucket = bucket_name self, Key = s3_prefix self @ path_name p,
            Body = file_data, ContentType = get_content_type p\<rparr>]
      | _ \<Rightarrow> [])"
proof (cases "stat_size world p")
  case (Inl e)
  then show ?thesis by (simp add: handle_file_event_stat_fails)
next
  case stat: (Inr sz)
  show ?thesis
  proof (cases "open_rb world p")
    case (Inl e)
    with stat handle_file_event_open_fails [of world p sz e self et] show ?thesis by auto
  next
    case opened: (Inr file_data)
    show ?thesis
    proof (cases "put_object world \<lparr>Bucket = bucket_name self, Key = s3_prefix self @ path_name p,
           Body = file_data, ContentType = get_content_type p\<rparr>")
      case None
      with stat opened show ?thesis by (simp add: handle_file_event_succeeds)
    next
      case (Some e)
      with stat opened handle_file_event_put_fails [of world p sz file_data self e et]
      show ?thesis by auto
    qed
  qed
qed

lemma dispatch_file:
  assumes "\<not> is_directory ev"
  shows "dispatch world self k ev =
           handle_file_event world self (src_path ev)
             (case k of Created \<Rightarrow> ''created'' | Modified \<Rightarrow> ''modified'')"
  using assms by (cases k) (simp_all add: dispatch_def on_created_def on_modified_def)

lemma dispatch_directory:
  assumes "is_directory ev"
  shows "dispatch world self k ev = ([], Return ())"
  using assms by (cases k) (simp_all add: dispatch_def on_created_def on_modified_def ret_def)

lemma dispatch_requests:
  "put_requests (fst (dispatch world self k ev)) =
     (if is_directory ev then []
      else case (stat_size world (src_path ev), open_rb world (src_path ev)) of
             (Inr sz, Inr file_data) \<Rightarrow>
               [\<lparr>Bucket = bucket_name self, Key = s3_prefix self @ path_name (src_path ev),
                 Body = file_data, ContentType = get_content_type (src_path ev)\<rparr>]
           | _ \<Rightarrow> [])"
  by (simp add: dispatch_directory dispatch_file handle_file_event_requests)

lemma run_events_requests:
  "put_requests (fst (run_events self evs)) =
     concat (map (\<lambda>(world, k, ev). put_requests (fst (dispatch world self k ev))) evs)"
proof (induction evs)
  case Nil
  show ?case by (simp add: ret_def)
next
  case (Cons x evs)
  obtain world k ev where x: "x = (world, k, ev)" by (cases x) auto
  from Cons show ?case unfolding x
    by (simp add: run_events_Cons put_requests_append del: run_events.simps)
qed

subsection \<open>Directory events\<close>

text \<open>
  Claim C8. A created or modified event whose \<^verbatim>\<open>is_directory\<close> flag is set has no
  effect at all: \<^verbatim>\<open>on_created\<close> and \<^verbatim>\<open>on_modified\<close> return at once, with no
  log record and no request. So a run over any events is the run over those that are
  not directory events.
\<close>

theorem directory_events_filtered:
  "(is_directory ev \<longrightarrow>
      on_created world self ev = ([], Return ()) \<and> on_modified world self ev = ([], Return ()))
   \<and> run_events self evs = run_events self (filter (\<lambda>(w, k, e). \<not> is_directory e) evs)"
proof (intro conjI impI)
  assume "is_directory ev"
  then show "on_created world self ev = ([], Return ())"
    by (simp add: on_created_def ret_def)
next
  assume "is_directory ev"
  then show "on_modified world self ev = ([], Return ())"
    by (simp add: on_modified_def ret_def)
next
  show "run_events self evs = run_events self (filter (\<lambda>(w, k, e). \<not> is_directory e) evs)"
  proof (induction evs)
    case Nil
    show ?case by simp
  next
    case (Cons x evs)
    obtain w k e where x: "x = (w, k, e)" by (cases x) auto
    show ?case
    proof (cases "is_directory e")
      case True
      then have "run_events self (x # evs) = run_events self evs"
        unfolding x using run_events_returns [of self evs]
        by (cases "run_events self evs")
           (simp add: run_events_Cons dispatch_directory del: run_events.simps)
      with True Cons show ?thesis by (simp add: x)
    next
      case False
      with Cons show ?thesis by (simp add: x)
    qed
  qed
qed

theorem directory_events_filtered_witness:
  "on_created (example_world ''hi'' None) docs_handler
      \<lparr>src_path = ''./docs/sub'', is_directory = True\<rparr> = ([], Return ())
   \<and> on_modified (example_world ''hi'' None) docs_handler
      \<lparr>src_path = ''./docs/sub'', is_directory = True\<rparr> = ([], Return ())
   \<and> run_events docs_handler
        [(example_world ''hi'' None, Created, \<lparr>src_path = ''./docs/sub'', is_directory = True\<rparr>),
         (example_world ''hi'' None, Modified, \<lparr>src_path = ''./docs/sub'', is_directory = True\<rparr>)]
      = ([], Return ())"
  using directory_events_filtered
    [of "\<lparr>src_path = ''./docs/sub'', is_directory = True\<rparr>" "example_world ''hi'' None" docs_handler
        "[(example_world ''hi'' None, Created, \<lparr>src_path = ''./docs/sub'', is_directory = True\<rparr>),
          (example_world ''hi'' None, Modified, \<lparr>src_path = ''./docs/sub'', is_directory = True\<rparr>)]"]
  by (simp add: ret_def)

subsection \<open>Errors while an event is handled\<close>

text \<open>
  Claim C6. \<^verbatim>\<open>_handle_file_event\<close> always returns: no exception leaves it, and so
  none leaves a hook or the run over any events. When the file has vanished at
  \<^verbatim>\<open>open\<close>, the effects are the event's info record and one error record
  \<^verbatim>\<open>File not found\<close>; when it has vanished at \<^verbatim>\<open>stat\<close>, one error record
  \<^verbatim>\<open>Error processing file\<close>; in both cases no request is sent to the store.
  Whenever \<^verbatim>\<open>stat\<close>, \<^verbatim>\<open>open\<close> or \<^verbatim>\<open>put_object\<close> raises, exactly one
  error record is logged.
\<close>

theorem event_handling_never_raises:
  "snd (handle_file_event world self p et) = Return ()
   \<and> snd (on_created world self ev) = Return ()
   \<and> snd (on_modified world self ev) = Return ()
   \<and> snd (run_events self evs) = Return ()
   \<and> (stat_size world p = Inr sz \<and> open_rb world p = Inl FileNotFoundError \<longrightarrow>
        handle_file_event world self p et =
          ([Log INFO (File_event et (path_name p) sz), Log ERROR (File_not_found p)], Return ()))
   \<and> (stat_size world p = Inl FileNotFoundError \<longrightarrow>
        handle_file_event world self p et =
          ([Log ERROR (Error_processing_file p FileNotFoundError)], Return ()))
   \<and> ((\<exists>e. stat_size world p = Inl e) \<or> (\<exists>e. open_rb world p = Inl e) \<longrightarrow>
        put_requests (fst (handle_file_event world self p et)) = [])
   \<and> ((\<exists>e. stat_size world p = Inl e) \<or> (\<exists>e. open_rb world p = Inl e)
        \<or> (\<exists>file_data e. open_rb world p = Inr file_data
              \<and> put_object world \<lparr>Bucket = bucket_name self, Key = s3_prefix self @ path_name p,
                    Body = file_data, ContentType = get_content_type p\<rparr> = Some e) \<longrightarrow>
        (\<exists>m. error_records (fst (handle_file_event world self p et)) = [m]))"
proof (intro conjI impI)
  show "snd (handle_file_event world self p et) = Return ()"
    by (rule handle_file_event_returns)
  show "snd (on_created world self ev) = Return ()"
    using dispatch_returns [of world self Created ev] by (simp add: dispatch_def)
  show "snd (on_modified world self ev) = Return ()"
    using dispatch_returns [of world self Modified ev] by (simp add: dispatch_def)
  show "snd (run_events self evs) = Return ()"
    by (rule run_events_returns)
  show "handle_file_event world self p et =
          ([Log INFO (File_event et (path_name p) sz), Log ERROR (File_not_found p)], Return ())"
    if "stat_size world p = Inr sz \<and> open_rb world p = Inl FileNotFoundError"
    using that by (simp add: handle_file_event_vanished_before_read)
  show "handle_file_event world self p et =
          ([Log ERROR (Error_processing_file p FileNotFoundError)], Return ())"
    if "stat_size world p = Inl FileNotFoundError"
    using that by (rule handle_file_event_stat_fails)
  show "put_requests (fst (handle_file_event world self p et)) = []"
    if "(\<exists>e. stat_size world p = Inl e) \<or> (\<exists>e. open_rb world p = Inl e)"
    using that by (auto simp: handle_file_event_requests split: sum.splits)
  show "\<exists>m. error_records (fst (handle_file_event world self p et)) = [m]"
    if h: "(\<exists>e. stat_size world p = Inl e) \<or> (\<exists>e. open_rb world p = Inl e)
        \<or> (\<exists>file_data e. open_rb world p = Inr file_data
              \<and> put_object world \<lparr>Bucket = bucket_name self, Key = s3_prefix self @ path_name p,
                    Body = file_data, ContentType = get_content_type p\<rparr> = Some e)"
  proof (cases "stat_size world p")
    case (Inl e)
    then show ?thesis by (simp add: handle_file_event_stat_fails)
  next
    case stat: (Inr n)
    show ?thesis
    proof (cases "open_rb world p")
      case (Inl e)
      with stat handle_file_event_open_fails [of world p n e self et] show ?thesis by auto
    next
      case opened: (Inr file_data)
      with stat h obtain e where
        "put_object world \<lparr>Bucket = bucket_name self, Key = s3_prefix self @ path_name p,
                    Body = file_data, ContentType = get_content_type p\<rparr> = Some e"
        by auto
      with stat opened handle_file_event_put_fails [of world p n file_data self e et]
      show ?thesis by auto
    qed
  qed
qed

theorem event_handling_never_raises_witness:
  "handle_file_event
     \<lparr>stat_size = (\<lambda>_. Inr 2), open_rb = (\<lambda>_. Inl FileNotFoundError), put_object = (\<lambda>_. None)\<rparr>
     docs_handler ''./docs/a.txt'' ''modified''
   = ([Log INFO (File_event ''modified'' ''a.txt'' 2), Log ERROR (File_not_found ''./docs/a.txt'')],
      Return ())
   \<and> handle_file_event
     \<lparr>stat_size = (\<lambda>_. Inl FileNotFoundError), open_rb = (\<lambda>_. Inl FileNotFoundError),
       put_object = (\<lambda>_. None)\<rparr>
     docs_handler ''./docs/a.txt'' ''created''
   = ([Log ERROR (Error_processing_file ''./docs/a.txt'' FileNotFoundError)], Return ())
   \<and> (\<exists>m. error_records (fst (handle_file_event
        (example_world ''hi'' (Some (OtherException ''EndpointConnectionError'')))
        docs_handler ''./docs/a.txt'' ''created'')) = [m])"
  using
    event_handling_never_raises
      [of "\<lparr>stat_size = (\<lambda>_. Inr 2), open_rb = (\<lambda>_. Inl FileNotFoundError), put_object = (\<lambda>_. None)\<rparr>"
          docs_handler "''./docs/a.txt''" "''modified''" _ _ 2]
    event_handling_never_raises
      [of "\<lparr>stat_size = (\<lambda>_. Inl FileNotFoundError), open_rb = (\<lambda>_. Inl FileNotFoundError),
             put_object = (\<lambda>_. None)\<rparr>"
          docs_handler "''./docs/a.txt''" "''created''"]
    event_handling_never_raises
      [of "example_world ''hi'' (Some (OtherException ''EndpointConnectionError''))"
          docs_handler "''./docs/a.txt''" "''created''"]
  by (simp add: example_world_def path_name_def path_tail_def)

subsection \<open>A permanent store error\<close>

text \<open>
  Claim C3. When the store answers the request of a file event with
  \<^verbatim>\<open>AccessDenied\<close> or \<^verbatim>\<open>NoSuchBucket\<close>, the handler has sent exactly that
  one \<^verbatim>\<open>put_object\<close> request, logs exactly one error record (the bucket is
  missing, or access is denied) and returns; the task is gone. The run goes on: the
  events before and after it are handled as they are without it.
\<close>

theorem permanent_error_one_attempt_then_continue:
  assumes "\<not> is_directory ev"
    and "stat_size world (src_path ev) = Inr sz"
    and "open_rb world (src_path ev) = Inr file_data"
    and "code = ''AccessDenied'' \<or> code = ''NoSuchBucket''"
    and "put_object world
           \<lparr>Bucket = bucket_name self, Key = s3_prefix self @ path_name (src_path ev),
            Body = file_data, ContentType = get_content_type (src_path ev)\<rparr>
         = Some (ClientError code)"
  shows "dispatch world self k ev =
           ([Log INFO (File_event (case k of Created \<Rightarrow> ''created'' | Modified \<Rightarrow> ''modified'')
                         (path_name (src_path ev)) sz),
             Put_object \<lparr>Bucket = bucket_name self, Key = s3_prefix self @ path_name (src_path ev),
               Body = file_data, ContentType = get_content_type (src_path ev)\<rparr>,
             Log ERROR (if code = ''NoSuchBucket'' then Bucket_does_not_exist (bucket_name self)
                        else Access_denied_to_bucket (bucket_name self))],
            Return ())
         \<and> length (put_requests (fst (dispatch world self k ev))) = 1
         \<and> length (error_records (fst (dispatch world self k ev))) = 1
         \<and> run_events self (pre @ (world, k, ev) # rest) =
             (fst (run_events self pre) @ fst (dispatch world self k ev) @ fst (run_events self rest),
              Return ())"
proof -
  let ?p = "src_path ev"
  let ?request = "\<lparr>Bucket = bucket_name self, Key = s3_prefix self @ path_name ?p,
               Body = file_data, ContentType = get_content_type ?p\<rparr>"
  let ?message = "if code = ''NoSuchBucket'' then Bucket_does_not_exist (bucket_name self)
                        else Access_denied_to_bucket (bucket_name self)"
  have upload: "upload_to_s3 world self ?p (s3_prefix self @ path_name ?p) (path_name ?p) =
                  ([Put_object ?request, Log ERROR ?message], Return ())"
    using assms(3,4,5) by (auto simp: upload_to_s3_def upload_except_def comp_simps)
  have one: "dispatch world self k ev =
           ([Log INFO (File_event (case k of Created \<Rightarrow> ''created'' | Modified \<Rightarrow> ''modified'')
                         (path_name ?p) sz),
             Put_object ?request, Log ERROR ?message], Return ())"
    using assms(1,2) upload by (simp add: dispatch_file handle_file_event_stat_ok)
  have run: "run_events self (pre @ (world, k, ev) # rest) =
             (fst (run_events self pre) @ fst (dispatch world self k ev) @ fst (run_events self rest),
              Return ())"
    by (simp add: run_events_append [of self pre] run_events_Cons del: run_events.simps)
  from one run show ?thesis by simp
qed

theorem permanent_error_one_attempt_then_continue_witness:
  "run_events docs_handler
     [(example_world ''hi'' (Some (ClientError ''AccessDenied'')), Created,
         \<lparr>src_path = ''./docs/a.txt'', is_directory = False\<rparr>),
      (example_world ''{}'' None, Created,
         \<lparr>src_path = ''./docs/b.json'', is_directory = False\<rparr>)]
   = ([Log INFO (File_event ''created'' ''a.txt'' 2),
       Put_object \<lparr>Bucket = ''bucket'', Key = ''up/a.txt'', Body = ''hi'',
                    ContentType = ''text/plain''\<rparr>,
       Log ERROR (Access_denied_to_bucket ''bucket''),
       Log INFO (File_event ''created'' ''b.json'' 2),
       Put_object \<lparr>Bucket = ''bucket'', Key = ''up/b.json'', Body = ''{}'',
                    ContentType = ''application/json''\<rparr>,
       Log INFO (Successfully_uploaded ''b.json''),
       Log INFO (S3_URL ''https://bucket.s3.amazonaws.com/up/b.json'')],
      Return ())"
proof -
  let ?w = "example_world ''hi'' (Some (ClientError ''AccessDenied''))"
  let ?a = "\<lparr>src_path = ''./docs/a.txt'', is_directory = False\<rparr>"
  let ?b = "\<lparr>src_path = ''./docs/b.json'', is_directory = False\<rparr>"
  have name_a: "path_name ''./docs/a.txt'' = ''a.txt''" by code_simp
  have type_a: "get_content_type ''./docs/a.txt'' = ''text/plain''" by code_simp
  have rest: "run_events docs_handler [(example_world ''{}'' None, Created, ?b)] =
      ([Log INFO (File_event ''created'' ''b.json'' 2),
       Put_object \<lparr>Bucket = ''bucket'', Key = ''up/b.json'', Body = ''{}'',
                    ContentType = ''application/json''\<rparr>,
       Log INFO (Successfully_uploaded ''b.json''),
       Log INFO (S3_URL ''https://bucket.s3.amazonaws.com/up/b.json'')],
      Return ())"
    by code_simp
  have "\<not> is_directory ?a" by simp
  moreover have "stat_size ?w (src_path ?a) = Inr 2" by (simp add: example_world_def)
  moreover have "open_rb ?w (src_path ?a) = Inr ''hi''" by (simp add: example_world_def)
  moreover have "''AccessDenied'' = ''AccessDenied'' \<or> ''AccessDenied'' = ''NoSuchBucket''" by simp
  moreover have "put_object ?w
           \<lparr>Bucket = bucket_name docs_handler,
            Key = s3_prefix docs_handler @ path_name (src_path ?a),
            Body = ''hi'', ContentType = get_content_type (src_path ?a)\<rparr>
         = Some (ClientError ''AccessDenied'')" by (simp add: example_world_def)
  ultimately show ?thesis
    using permanent_error_one_attempt_then_continue
      [of ?a ?w 2 "''hi''" "''AccessDenied''" docs_handler Created "[]"
          "[(example_world ''{}'' None, Created, ?b)]"] rest name_a type_a
    by (simp add: docs_handler_def ret_def del: run_events.simps(2))
qed

subsection \<open>The remote key\<close>

text \<open>
  Claim C5. Every request that an event causes goes to the handler's bucket under the
  key \<^verbatim>\<open>self.s3_prefix\<close> followed by the name of the event's path; the prefix is
  fixed by the configured prefix when the handler is made. The key depends on nothing
  else: two events for the same path, of any kind and in any state of the file system
  and the store, give requests with the same bucket and key, and so do all events of a
  run that are for one path.
\<close>

theorem remote_key_deterministic:
  "(\<forall>r \<in> set (put_requests (fst (dispatch world self k ev))).
      Bucket r = bucket_name self \<and> Key r = s3_prefix self @ path_name (src_path ev))
   \<and> (src_path ev1 = src_path ev2 \<longrightarrow>
        (\<forall>r1 \<in> set (put_requests (fst (dispatch world1 self k1 ev1))).
         \<forall>r2 \<in> set (put_requests (fst (dispatch world2 self k2 ev2))).
           Bucket r1 = Bucket r2 \<and> Key r1 = Key r2))
   \<and> ((\<forall>x \<in> set evs. src_path (snd (snd x)) = p) \<longrightarrow>
        (\<forall>r \<in> set (put_requests (fst (run_events self evs))).
           Bucket r = bucket_name self \<and> Key r = s3_prefix self @ path_name p))
   \<and> snd (S3FileHandler bucket prefix) =
        Return \<lparr>bucket_name = bucket,
                s3_prefix = (if prefix \<noteq> [] then rstrip (CHR ''/'') prefix @ ''/'' else [])\<rparr>"
proof -
  have one: "Bucket r = bucket_name self \<and> Key r = s3_prefix self @ path_name (src_path e)"
    if "r \<in> set (put_requests (fst (dispatch w self kd e)))" for r w kd e
    using that by (auto simp: dispatch_requests split: if_splits sum.splits)
  have two: "Bucket r1 = Bucket r2 \<and> Key r1 = Key r2"
    if "src_path ev1 = src_path ev2"
      and "r1 \<in> set (put_requests (fst (dispatch world1 self k1 ev1)))"
      and "r2 \<in> set (put_requests (fst (dispatch world2 self k2 ev2)))" for r1 r2
    using one [OF that(2)] one [OF that(3)] that(1) by simp
  have run: "Bucket r = bucket_name self \<and> Key r = s3_prefix self @ path_name p"
    if same: "\<forall>x \<in> set evs. src_path (snd (snd x)) = p"
      and r: "r \<in> set (put_requests (fst (run_events self evs)))" for r
  proof -
    from r obtain w kd e where x: "(w, kd, e) \<in> set evs"
      and "r \<in> set (put_requests (fst (dispatch w self kd e)))"
      by (auto simp: run_events_requests)
    then have "Bucket r = bucket_name self \<and> Key r = s3_prefix self @ path_name (src_path e)"
      using one by blast
    moreover from same x have "src_path e = p" by force
    ultimately show ?thesis by simp
  qed
  have init: "snd (S3FileHandler bucket prefix) =
        Return \<lparr>bucket_name = bucket,
                s3_prefix = (if prefix \<noteq> [] then rstrip (CHR ''/'') prefix @ ''/'' else [])\<rparr>"
    by (simp add: S3FileHandler_def comp_simps Let_def)
  from one two run init show ?thesis by blast
qed

theorem remote_key_deterministic_witness:
  "map Key (put_requests (fst (run_events docs_handler
     [(example_world ''hi'' None, Created, \<lparr>src_path = ''./docs/a.txt'', is_directory = False\<rparr>),
      (example_world ''hi there'' None, Modified,
         \<lparr>src_path = ''./docs/a.txt'', is_directory = False\<rparr>)])))
   = [''up/a.txt'', ''up/a.txt'']
   \<and> snd (S3FileHandler ''bucket'' ''up//'') = Return docs_handler"
proof -
  let ?a = "\<lparr>src_path = ''./docs/a.txt'', is_directory = False\<rparr>"
  let ?evs = "[(example_world ''hi'' None, Created, ?a), (example_world ''hi there'' None, Modified, ?a)]"
  have same: "\<forall>x \<in> set ?evs. src_path (snd (snd x)) = ''./docs/a.txt''" by simp
  have name: "path_name ''./docs/a.txt'' = ''a.txt''" by code_simp
  have len: "length (put_requests (fst (run_events docs_handler ?evs))) = 2" by code_simp
  have strip: "rstrip (CHR ''/'') ''up//'' = ''up''" by code_simp
  from remote_key_deterministic [of _ docs_handler _ _ _ _ _ _ _ _ ?evs "''./docs/a.txt''" "''bucket''" "''up//''"] same
  have keys: "\<forall>r \<in> set (put_requests (fst (run_events docs_handler ?evs))). Key r = ''up/a.txt''"
    and init: "snd (S3FileHandler ''bucket'' ''up//'') = Return docs_handler"
    by (simp_all add: name docs_handler_def strip)
  from len obtain r1 r2 where rs: "put_requests (fst (run_events docs_handler ?evs)) = [r1, r2]"
    by (cases "put_requests (fst (run_events docs_handler ?evs))" rule: list.exhaust)
       (auto simp: length_Suc_conv)
  with keys have "Key r1 = ''up/a.txt''" and "Key r2 = ''up/a.txt''" by simp_all
  with rs init show ?thesis by simp
qed

subsection \<open>No retry and no debounce\<close>

text \<open>
  Claim C1 says that a write that fails with a transient error is tried again, up to a
  maximum number of attempts (5 is recommended). \<^verbatim>\<open>_upload_to_s3\<close> has no loop: with
  a store that answers every request with the throttling error \<^verbatim>\<open>SlowDown\<close>, it
  sends one request, logs the error and returns.
\<close>

theorem transient_error_retry_counterexample:
  "upload_to_s3 (example_world ''hi'' (Some (ClientError ''SlowDown''))) docs_handler
     ''./docs/a.txt'' ''up/a.txt'' ''a.txt''
   = ([Put_object \<lparr>Bucket = ''bucket'', Key = ''up/a.txt'', Body = ''hi'',
                    ContentType = ''text/plain''\<rparr>,
       Log ERROR (S3_upload_error (ClientError ''SlowDown''))],
      Return ())
   \<and> length (put_requests (fst (upload_to_s3
         (example_world ''hi'' (Some (ClientError ''SlowDown''))) docs_handler
         ''./docs/a.txt'' ''up/a.txt'' ''a.txt''))) = 1
   \<and> length (put_requests (fst (upload_to_s3
         (example_world ''hi'' (Some (ClientError ''SlowDown''))) docs_handler
         ''./docs/a.txt'' ''up/a.txt'' ''a.txt''))) \<noteq> 5"
  by code_simp

text \<open>
  Claim C1, amended. When the file opens and the store answers the request with any
  error, transient or not, \<^verbatim>\<open>_upload_to_s3\<close> has sent exactly this one request,
  logs exactly one error record and returns: there is no retry. In every case it sends
  at most one request.
\<close>

theorem store_error_single_submission:
  "(open_rb world p = Inr file_data
     \<and> put_object world \<lparr>Bucket = bucket_name self, Key = key, Body = file_data,
          ContentType = get_content_type p\<rparr> = Some e \<longrightarrow>
     (\<exists>m. upload_to_s3 world self p key n =
             ([Put_object \<lparr>Bucket = bucket_name self, Key = key, Body = file_data,
                 ContentType = get_content_type p\<rparr>, Log ERROR m], Return ()))
     \<and> length (put_requests (fst (upload_to_s3 world self p key n))) = 1)
   \<and> length (put_requests (fst (upload_to_s3 world self p key n))) \<le> 1"
proof (intro conjI impI)
  assume h: "open_rb world p = Inr file_data
     \<and> put_object world \<lparr>Bucket = bucket_name self, Key = key, Body = file_data,
          ContentType = get_content_type p\<rparr> = Some e"
  then obtain m where m: "upload_to_s3 world self p key n =
             ([Put_object \<lparr>Bucket = bucket_name self, Key = key, Body = file_data,
                 ContentType = get_content_type p\<rparr>, Log ERROR m], Return ())"
    using upload_to_s3_put_fails [of world p file_data self key e n] by blast
  then show "\<exists>m. upload_to_s3 world self p key n =
             ([Put_object \<lparr>Bucket = bucket_name self, Key = key, Body = file_data,
                 ContentType = get_content_type p\<rparr>, Log ERROR m], Return ())"
    by blast
  from m show "length (put_requests (fst (upload_to_s3 world self p key n))) = 1"
    by simp
next
  show "length (put_requests (fst (upload_to_s3 world self p key n))) \<le> 1"
  proof (cases "open_rb world p")
    case (Inl e')
    with upload_to_s3_open_fails [of world p e' self key n] show ?thesis by auto
  next
    case (Inr d)
    show ?thesis
    proof (cases "put_object world \<lparr>Bucket = bucket_name self, Key = key, Body = d,
          ContentType = get_content_type p\<rparr>")
      case None
      with Inr show ?thesis by (simp add: upload_to_s3_succeeds)
    next
      case (Some e')
      with Inr upload_to_s3_put_fails [of world p d self key e' n] show ?thesis by auto
    qed
  qed
qed

theorem store_error_single_submission_witness:
  "(\<exists>m. upload_to_s3 (example_world ''hi'' (Some (OtherException ''ConnectTimeoutError'')))
          docs_handler ''./docs/a.txt'' ''up/a.txt'' ''a.txt''
        = ([Put_object \<lparr>Bucket = ''bucket'', Key = ''up/a.txt'', Body = ''hi'',
                         ContentType = ''text/plain''\<rparr>, Log ERROR m], Return ()))
   \<and> length (put_requests (fst (upload_to_s3
        (example_world ''hi'' (Some (OtherException ''ConnectTimeoutError'')))
        docs_handler ''./docs/a.txt'' ''up/a.txt'' ''a.txt''))) = 1"
proof -
  have type: "get_content_type ''./docs/a.txt'' = ''text/plain''" by code_simp
  show ?thesis
    using store_error_single_submission
      [of "example_world ''hi'' (Some (OtherException ''ConnectTimeoutError''))" "''./docs/a.txt''"
          "''hi''" docs_handler "''up/a.txt''" "OtherException ''ConnectTimeoutError''" "''a.txt''"]
    by (simp add: example_world_def docs_handler_def type)
qed

text \<open>
  Claim C2 says that events for one path that follow each other quickly give one upload.
  The handler keeps no state between events and has no timer: \<^verbatim>\<open>a.txt\<close> created
  with the bytes \<^verbatim>\<open>hi\<close> and modified at once to \<^verbatim>\<open>hi there\<close> gives two
  requests under the same key, the first with the earlier bytes.
\<close>

theorem debounce_counterexample:
  "put_requests (fst (run_events docs_handler
     [(example_world ''hi'' None, Created, \<lparr>src_path = ''./docs/a.txt'', is_directory = False\<rparr>),
      (example_world ''hi there'' None, Modified,
         \<lparr>src_path = ''./docs/a.txt'', is_directory = False\<rparr>)]))
   = [\<lparr>Bucket = ''bucket'', Key = ''up/a.txt'', Body = ''hi'', ContentType = ''text/plain''\<rparr>,
      \<lparr>Bucket = ''bucket'', Key = ''up/a.txt'', Body = ''hi there'',
         ContentType = ''text/plain''\<rparr>]"
  by code_simp

text \<open>
  Claim C2, amended. Every created or modified event for a file that \<^verbatim>\<open>stat\<close> finds
  and \<^verbatim>\<open>open\<close> opens gives exactly one request of its own, with the bytes read
  while this event is handled: a run over \<open>n\<close> such events sends \<open>n\<close> requests, in
  the order of the events, and none is superseded.
\<close>

theorem one_upload_per_file_event:
  assumes "\<forall>(world, k, ev) \<in> set evs.
             \<not> is_directory ev \<and> (\<exists>sz. stat_size world (src_path ev) = Inr sz)
             \<and> (\<exists>file_data. open_rb world (src_path ev) = Inr file_data)"
  shows "length (put_requests (fst (run_events self evs))) = length evs
         \<and> map Key (put_requests (fst (run_events self evs))) =
             map (\<lambda>(world, k, ev). s3_prefix self @ path_name (src_path ev)) evs
         \<and> map (\<lambda>r. Inr (Body r)) (put_requests (fst (run_events self evs))) =
             map (\<lambda>(world, k, ev). open_rb world (src_path ev)) evs"
  using assms
proof (induction evs)
  case Nil
  show ?case by (simp add: ret_def)
next
  case (Cons x evs)
  obtain world k ev where x: "x = (world, k, ev)" by (cases x) auto
  from Cons.prems x obtain sz file_data where readable: "\<not> is_directory ev"
    "stat_size world (src_path ev) = Inr sz" "open_rb world (src_path ev) = Inr file_data"
    by auto
  then have one: "put_requests (fst (dispatch world self k ev)) =
      [\<lparr>Bucket = bucket_name self, Key = s3_prefix self @ path_name (src_path ev),
        Body = file_data, ContentType = get_content_type (src_path ev)\<rparr>]"
    by (simp add: dispatch_requests)
  from Cons have rest: "length (put_requests (fst (run_events self evs))) = length evs
         \<and> map Key (put_requests (fst (run_events self evs))) =
             map (\<lambda>(world, k, ev). s3_prefix self @ path_name (src_path ev)) evs
         \<and> map (\<lambda>r. Inr (Body r)) (put_requests (fst (run_events self evs))) =
             map (\<lambda>(world, k, ev). open_rb world (src_path ev)) evs"
    by simp
  have "put_requests (fst (run_events self (x # evs))) =
          put_requests (fst (dispatch world self k ev)) @ put_requests (fst (run_events self evs))"
    unfolding x by (simp add: run_events_Cons put_requests_append del: run_events.simps)
  with one rest readable show ?case by (simp add: x)
qed

theorem one_upload_per_file_event_witness:
  "length (put_requests (fst (run_events docs_handler
     [(example_world ''hi'' None, Created, \<lparr>src_path = ''./docs/a.txt'', is_directory = False\<rparr>),
      (example_world ''hi there'' (Some (ClientError ''SlowDown'')), Modified,
         \<lparr>src_path = ''./docs/a.txt'', is_directory = False\<rparr>),
      (example_world ''hi there!'' None, Modified,
         \<lparr>src_path = ''./docs/a.txt'', is_directory = False\<rparr>)]))) = 3
   \<and> map Body (put_requests (fst (run_events docs_handler
     [(example_world ''hi'' None, Created, \<lparr>src_path = ''./docs/a.txt'', is_directory = False\<rparr>),
      (example_world ''hi there'' (Some (ClientError ''SlowDown'')), Modified,
         \<lparr>src_path = ''./docs/a.txt'', is_directory = False\<rparr>),
      (example_world ''hi there!'' None, Modified,
         \<lparr>src_path = ''./docs/a.txt'', is_directory = False\<rparr>)])))
     = [''hi'', ''hi there'', ''hi there!'']"
proof -
  let ?a = "\<lparr>src_path = ''./docs/a.txt'', is_directory = False\<rparr>"
  let ?evs = "[(example_world ''hi'' None, Created, ?a),
      (example_world ''hi there'' (Some (ClientError ''SlowDown'')), Modified, ?a),
      (example_world ''hi there!'' None, Modified, ?a)]"
  have files: "\<forall>(world, k, ev) \<in> set ?evs.
             \<not> is_directory ev \<and> (\<exists>sz. stat_size world (src_path ev) = Inr sz)
             \<and> (\<exists>file_data. open_rb world (src_path ev) = Inr file_data)"
    by (simp add: example_world_def)
  from one_upload_per_file_event [OF files, of docs_handler]
  have len: "length (put_requests (fst (run_events docs_handler ?evs))) = 3"
    and bodies: "map (\<lambda>r. Inr (Body r)) (put_requests (fst (run_events docs_handler ?evs))) =
       [Inr ''hi'', Inr ''hi there'', Inr ''hi there!'' :: exn + string]"
    by (simp_all add: example_world_def del: run_events.simps)
  from bodies have "map Body (put_requests (fst (run_events docs_handler ?evs)))
     = [''hi'', ''hi there'', ''hi there!'']"
    by (simp add: map_eq_Cons_conv del: run_events.simps)
  with len show ?thesis by simp
qed

subsection \<open>Start-up\<close>

lemma bind_opt_Return:
  "bind_opt (tr, Return x) f = map_option (\<lambda>c. (tr @ fst c, snd c)) (f x)"
  by (simp add: bind_opt_def case_prod_unfold)

lemma bind_opt_Raise: "bind_opt (tr, Raise e) f = Some (tr, Raise e)"
  by (simp add: bind_opt_def)

lemma bind_opt_Sys_exit: "bind_opt (tr, Sys_exit n) f = Some (tr, Sys_exit n)"
  by (simp add: bind_opt_def)

lemmas bind_opt_simps = bind_opt_Return bind_opt_Raise bind_opt_Sys_exit

lemma main_except_exits: "\<exists>m. main_except e = Some ([Log ERROR m], Sys_exit 1)"
  by (cases e) (simp_all add: main_except_def comp_simps)

text \<open>With fewer than two arguments \<^verbatim>\<open>main\<close> prints the usage and exits.\<close>

lemma main_usage:
  assumes "length argv < 3"
  shows "main fuel argv sys = Some ([Print Banner, Print Usage], Sys_exit 1)"
  using assms by (simp add: main_def bind_opt_simps comp_simps)

lemma main_bad_watch_path:
  assumes "3 \<le> length argv"
    and "\<not> (path_exists sys (argv ! 1) \<and> path_isdir sys (argv ! 1))"
  shows "main fuel argv sys =
           Some ([Print Banner,
                  Log ERROR (if \<not> path_exists sys (argv ! 1)
                             then Watch_path_does_not_exist (argv ! 1)
                             else Watch_path_is_not_a_directory (argv ! 1))],
                 Sys_exit 1)"
  using assms by (auto simp: main_def bind_opt_simps comp_simps Let_def)

text \<open>When \<^verbatim>\<open>create_s3_client\<close> raises, \<^verbatim>\<open>main\<close> logs and exits with 1.\<close>

lemma main_client_fails:
  assumes "3 \<le> length argv"
    and "path_exists sys (argv ! 1)" and "path_isdir sys (argv ! 1)"
    and "create_s3_client sys = (tr, Raise e)"
  shows "\<exists>m. main fuel argv sys =
           Some ([Print Banner,
                  Log INFO (Monitoring_folder (abspath sys (argv ! 1))),
                  Log INFO (S3_Bucket (argv ! 2)),
                  Log INFO (S3_Prefix (if length argv > 3 \<and> argv ! 3 \<noteq> [] then argv ! 3
                                       else ''(root)''))]
                 @ tr @ [Log ERROR m],
                 Sys_exit 1)"
proof -
  obtain m where "main_except e = Some ([Log ERROR m], Sys_exit 1)"
    using main_except_exits by blast
  with assms show ?thesis
    by (auto simp: main_def bind_opt_simps comp_simps Let_def)
qed

lemma create_s3_client_client_fails:
  assumes "boto3_client sys = Some e"
  shows "\<exists>tr. create_s3_client sys = (Boto3_client # tr, Raise e)
              \<and> (\<forall>a \<in> set tr. \<exists>m. a = Log ERROR m)"
  using assms by (cases e) (simp_all add: create_s3_client_def comp_simps)

lemma create_s3_client_empty_account:
  assumes "boto3_client sys = None" and "list_buckets sys = Inr []"
  shows "create_s3_client sys =
           ([Boto3_client, List_buckets, Log ERROR (Failed_to_create_S3_client IndexError)],
            Raise IndexError)"
  using assms by (simp add: create_s3_client_def comp_simps)

lemma create_s3_client_probe:
  assumes "boto3_client sys = None" and "list_buckets sys = Inr (first # others)"
  shows "\<exists>tr r. create_s3_client sys = ([Boto3_client, List_buckets, Head_bucket first] @ tr, r)
                \<and> (\<forall>b. Head_bucket b \<notin> set tr)
                \<and> (r = Return ()) = (head_bucket sys first = None)"
proof (cases "head_bucket sys first")
  case None
  with assms show ?thesis by (simp add: create_s3_client_def comp_simps)
next
  case (Some e)
  with assms show ?thesis by (cases e) (simp_all add: create_s3_client_def comp_simps)
qed

text \<open>
  Claim C7. When the watch path does not exist or is no directory, \<^verbatim>\<open>main\<close> prints
  the banner, logs one error and ends with \<^verbatim>\<open>sys.exit(1)\<close>, whatever the fuel: it
  does not reach the loop. Nothing else has happened by then: no client is made, no
  bucket is probed, no watch is scheduled and the observer is not started.
\<close>

theorem invalid_watch_path_exits_at_start:
  assumes "3 \<le> length argv"
    and "\<not> (path_exists sys (argv ! 1) \<and> path_isdir sys (argv ! 1))"
  shows "\<exists>tr. main fuel argv sys = Some (tr, Sys_exit 1) \<and> exit_code (Sys_exit 1) = 1
           \<and> tr = [Print Banner,
                    Log ERROR (if \<not> path_exists sys (argv ! 1)
                               then Watch_path_does_not_exist (argv ! 1)
                               else Watch_path_is_not_a_directory (argv ! 1))]
           \<and> Observer_start \<notin> set tr \<and> Boto3_client \<notin> set tr
           \<and> (\<forall>p recursive. Observer_schedule p recursive \<notin> set tr)"
  using main_bad_watch_path [OF assms, of fuel] by (simp add: exit_code_def)

theorem invalid_watch_path_exits_at_start_witness:
  "main 0 [''s3_file_monitor.py'', ''./missing'', ''bucket'', ''up/''] (example_sys [''bucket''])
     = Some ([Print Banner, Log ERROR (Watch_path_does_not_exist ''./missing'')], Sys_exit 1)
   \<and> main 0 [''s3_file_monitor.py'', ''./notes.txt'', ''bucket''] (example_sys [''bucket''])
     = Some ([Print Banner, Log ERROR (Watch_path_is_not_a_directory ''./notes.txt'')], Sys_exit 1)"
proof -
  have 1: "\<not> (path_exists (example_sys [''bucket''])
                 ([''s3_file_monitor.py'', ''./missing'', ''bucket'', ''up/''] ! 1)
              \<and> path_isdir (example_sys [''bucket''])
                 ([''s3_file_monitor.py'', ''./missing'', ''bucket'', ''up/''] ! 1))"
    by (simp add: example_sys_def)
  have 2: "\<not> (path_exists (example_sys [''bucket''])
                 ([''s3_file_monitor.py'', ''./notes.txt'', ''bucket''] ! 1)
              \<and> path_isdir (example_sys [''bucket''])
                 ([''s3_file_monitor.py'', ''./notes.txt'', ''bucket''] ! 1))"
    by (simp add: example_sys_def)
  have 3: "path_exists (example_sys [''bucket'']) ''./notes.txt''"
    and 4: "\<not> path_exists (example_sys [''bucket'']) ''./missing''"
    by (simp_all add: example_sys_def)
  from invalid_watch_path_exits_at_start [OF _ 1, of 0] 4
  have missing: "main 0 [''s3_file_monitor.py'', ''./missing'', ''bucket'', ''up/'']
       (example_sys [''bucket''])
     = Some ([Print Banner, Log ERROR (Watch_path_does_not_exist ''./missing'')], Sys_exit 1)"
    by simp
  from invalid_watch_path_exits_at_start [OF _ 2, of 0] 3
  have "main 0 [''s3_file_monitor.py'', ''./notes.txt'', ''bucket''] (example_sys [''bucket''])
     = Some ([Print Banner, Log ERROR (Watch_path_is_not_a_directory ''./notes.txt'')], Sys_exit 1)"
    by simp
  with missing show ?thesis by simp
qed

text \<open>
  Claim C10. \<^verbatim>\<open>create_s3_client\<close> probes the first bucket that
  \<^verbatim>\<open>list_buckets\<close> returns; it takes no bucket name, so the probe does not depend
  on the bucket given on the command line. When the account owns no bucket,
  \<^verbatim>\<open>create_s3_client\<close> raises (\<^verbatim>\<open>IndexError\<close>, when the client could be made)
  without a \<^verbatim>\<open>head_bucket\<close> call, and \<^verbatim>\<open>main\<close> ends with \<^verbatim>\<open>sys.exit(1)\<close>
  for every command line, before the target bucket is looked at and before the
  observer is started, whatever \<^verbatim>\<open>head_bucket\<close> would answer for the target.
\<close>

theorem empty_account_fails_client_creation:
  "(list_buckets sys = Inr [] \<longrightarrow>
      (\<exists>tr e. create_s3_client sys = (tr, Raise e) \<and> (\<forall>b. Head_bucket b \<notin> set tr))
      \<and> (\<exists>tr r. main fuel argv sys = Some (tr, r) \<and> r = Sys_exit 1 \<and> exit_code r = 1
             \<and> (\<forall>b. Head_bucket b \<notin> set tr) \<and> Observer_start \<notin> set tr))
   \<and> (boto3_client sys = None \<and> list_buckets sys = Inr [] \<longrightarrow>
        create_s3_client sys =
          ([Boto3_client, List_buckets, Log ERROR (Failed_to_create_S3_client IndexError)],
           Raise IndexError))
   \<and> (boto3_client sys = None \<and> list_buckets sys = Inr (first # others) \<longrightarrow>
        (\<exists>tr r. create_s3_client sys = ([Boto3_client, List_buckets, Head_bucket first] @ tr, r)
           \<and> (\<forall>b. Head_bucket b \<notin> set tr)))"
proof (intro conjI impI)
  assume empty: "list_buckets sys = Inr []"
  show client: "\<exists>tr e. create_s3_client sys = (tr, Raise e) \<and> (\<forall>b. Head_bucket b \<notin> set tr)"
  proof (cases "boto3_client sys")
    case None
    with empty show ?thesis by (simp add: create_s3_client_empty_account)
  next
    case (Some e)
    from create_s3_client_client_fails [OF this] show ?thesis by fastforce
  qed
  show "\<exists>tr r. main fuel argv sys = Some (tr, r) \<and> r = Sys_exit 1 \<and> exit_code r = 1
             \<and> (\<forall>b. Head_bucket b \<notin> set tr) \<and> Observer_start \<notin> set tr"
  proof (cases "length argv < 3")
    case True
    then show ?thesis by (simp add: main_usage exit_code_def)
  next
    case args: False
    show ?thesis
    proof (cases "path_exists sys (argv ! 1) \<and> path_isdir sys (argv ! 1)")
      case False
      with args main_bad_watch_path [of argv sys fuel] show ?thesis
        by (simp add: exit_code_def)
    next
      case True
      from client obtain tr e where tr: "create_s3_client sys = (tr, Raise e)"
        and probe: "\<forall>b. Head_bucket b \<notin> set tr" by blast
      have started: "Observer_start \<notin> set tr"
      proof (cases "boto3_client sys")
        case None
        with empty tr show ?thesis by (auto simp: create_s3_client_empty_account)
      next
        case (Some e')
        from create_s3_client_client_fails [OF this] tr show ?thesis by fastforce
      qed
      from args True main_client_fails [of argv sys tr e fuel] tr
      obtain m where "main fuel argv sys =
           Some ([Print Banner,
                  Log INFO (Monitoring_folder (abspath sys (argv ! 1))),
                  Log INFO (S3_Bucket (argv ! 2)),
                  Log INFO (S3_Prefix (if length argv > 3 \<and> argv ! 3 \<noteq> [] then argv ! 3
                                       else ''(root)''))]
                 @ tr @ [Log ERROR m],
                 Sys_exit 1)"
        by auto
      with probe started show ?thesis by (simp add: exit_code_def)
    qed
  qed
next
  assume "boto3_client sys = None \<and> list_buckets sys = Inr []"
  then show "create_s3_client sys =
          ([Boto3_client, List_buckets, Log ERROR (Failed_to_create_S3_client IndexError)],
           Raise IndexError)"
    by (simp add: create_s3_client_empty_account)
next
  assume "boto3_client sys = None \<and> list_buckets sys = Inr (first # others)"
  then show "\<exists>tr r. create_s3_client sys = ([Boto3_client, List_buckets, Head_bucket first] @ tr, r)
           \<and> (\<forall>b. Head_bucket b \<notin> set tr)"
    using create_s3_client_probe [of sys first others] by blast
qed

theorem empty_account_fails_client_creation_witness:
  "head_bucket (example_sys []) ''bucket'' = None
   \<and> main 1 [''s3_file_monitor.py'', ''./docs'', ''bucket'', ''up/''] (example_sys [])
     = Some ([Print Banner, Log INFO (Monitoring_folder ''/home/user/docs''),
              Log INFO (S3_Bucket ''bucket''), Log INFO (S3_Prefix ''up/''),
              Boto3_client, List_buckets,
              Log ERROR (Failed_to_create_S3_client IndexError),
              Log ERROR (Unexpected_error IndexError)],
             Sys_exit 1)
   \<and> create_s3_client (example_sys [''other'', ''bucket''])
     = ([Boto3_client, List_buckets, Head_bucket ''other'',
         Log INFO AWS_S3_connection_successful], Return ())"
proof -
  have run: "main 1 [''s3_file_monitor.py'', ''./docs'', ''bucket'', ''up/''] (example_sys [])
     = Some ([Print Banner, Log INFO (Monitoring_folder ''/home/user/docs''),
              Log INFO (S3_Bucket ''bucket''), Log INFO (S3_Prefix ''up/''),
              Boto3_client, List_buckets,
              Log ERROR (Failed_to_create_S3_client IndexError),
              Log ERROR (Unexpected_error IndexError)],
             Sys_exit 1)"
    by code_simp
  have probe: "create_s3_client (example_sys [''other'', ''bucket''])
     = ([Boto3_client, List_buckets, Head_bucket ''other'',
         Log INFO AWS_S3_connection_successful], Return ())"
    by code_simp
  have "list_buckets (example_sys []) = Inr []" by (simp add: example_sys_def)
  with empty_account_fails_client_creation
    [of "example_sys []" 1 "[''s3_file_monitor.py'', ''./docs'', ''bucket'', ''up/'']"]
  have "\<exists>tr. main 1 [''s3_file_monitor.py'', ''./docs'', ''bucket'', ''up/''] (example_sys [])
            = Some (tr, Sys_exit 1)"
    by blast
  with run probe show ?thesis by (simp add: example_sys_def)
qed

subsection \<open>The loop of \<^verbatim>\<open>main\<close>\<close>

text \<open>
  Without Ctrl+C the loop does not end, whatever the fuel; with Ctrl+C after \<open>n\<close>
  sleeps it ends as soon as the fuel exceeds the sleeps still to come, and returns.
\<close>

lemma keep_running_forever: "keep_running fuel None n = None"
  by (induction fuel arbitrary: n) auto

lemma keep_running_interrupted:
  assumes "slept \<le> n" and "n - slept < fuel"
  shows "\<exists>tr. keep_running fuel (Some n) slept = Some (tr, Return ())"
  using assms
proof (induction fuel arbitrary: slept)
  case 0
  then show ?case by simp
next
  case (Suc fuel)
  show ?case
  proof (cases "n = slept")
    case True
    then show ?thesis by (simp add: comp_simps)
  next
    case False
    with Suc.prems have "Suc slept \<le> n" and "n - Suc slept < fuel" by auto
    from Suc.IH [OF this] False show ?thesis by auto
  qed
qed

subsection \<open>Equal names in different directories\<close>

lemma handle_file_event_actions:
  "\<forall>a \<in> set (fst (handle_file_event world self p et)). not_schedule a"
proof (cases "stat_size world p")
  case (Inl e)
  then show ?thesis by (simp add: handle_file_event_stat_fails not_schedule_def)
next
  case stat: (Inr sz)
  show ?thesis
  proof (cases "open_rb world p")
    case (Inl e)
    with stat handle_file_event_open_fails [of world p sz e self et] show ?thesis
      by (auto simp: not_schedule_def)
  next
    case opened: (Inr file_data)
    show ?thesis
    proof (cases "put_object world \<lparr>Bucket = bucket_name self, Key = s3_prefix self @ path_name p,
           Body = file_data, ContentType = get_content_type p\<rparr>")
      case None
      with stat opened show ?thesis by (simp add: handle_file_event_succeeds not_schedule_def)
    next
      case (Some e)
      with stat opened handle_file_event_put_fails [of world p sz file_data self e et]
      show ?thesis by (auto simp: not_schedule_def)
    qed
  qed
qed

lemma run_events_actions: "\<forall>a \<in> set (fst (run_events self evs)). not_schedule a"
proof (induction evs)
  case Nil
  show ?case by (simp add: ret_def)
next
  case (Cons x evs)
  obtain world k ev where x: "x = (world, k, ev)" by (cases x) auto
  have "\<forall>a \<in> set (fst (dispatch world self k ev)). not_schedule a"
    using handle_file_event_actions
    by (cases "is_directory ev") (simp_all add: dispatch_directory dispatch_file)
  with Cons show ?case unfolding x
    by (auto simp: run_events_Cons simp del: run_events.simps)
qed

lemma create_s3_client_actions: "\<forall>a \<in> set (fst (create_s3_client sys)). not_schedule a"
proof (cases "boto3_client sys")
  case (Some e)
  from create_s3_client_client_fails [OF this] show ?thesis
    by (fastforce simp: not_schedule_def)
next
  case None
  show ?thesis
  proof (cases "list_buckets sys")
    case (Inl e)
    with None show ?thesis
      by (cases e) (simp_all add: create_s3_client_def comp_simps not_schedule_def)
  next
    case (Inr buckets)
    show ?thesis
    proof (cases buckets)
      case Nil
      with None Inr show ?thesis
        by (simp add: create_s3_client_empty_account not_schedule_def)
    next
      case (Cons first others)
      show ?thesis
      proof (cases "head_bucket sys first")
        case probe: None
        with None Inr Cons show ?thesis
          by (simp add: create_s3_client_def comp_simps not_schedule_def)
      next
        case (Some e)
        with None Inr Cons show ?thesis
          by (cases e) (simp_all add: create_s3_client_def comp_simps not_schedule_def)
      qed
    qed
  qed
qed

lemma validate_bucket_actions: "\<forall>a \<in> set (fst (validate_bucket sys bucket)). not_schedule a"
proof (cases "head_bucket sys bucket")
  case None
  then show ?thesis by (simp add: validate_bucket_def comp_simps not_schedule_def)
next
  case (Some e)
  then show ?thesis
    by (cases e) (simp_all add: validate_bucket_def comp_simps not_schedule_def)
qed

lemma keep_running_actions:
  "keep_running fuel interrupt n = Some c \<Longrightarrow> \<forall>a \<in> set (fst c). not_schedule a"
proof (induction fuel arbitrary: n c)
  case 0
  then show ?case by simp
next
  case (Suc fuel)
  show ?case
  proof (cases "interrupt = Some n")
    case True
    with Suc.prems show ?thesis by (auto simp: comp_simps not_schedule_def)
  next
    case False
    with Suc.prems obtain c' where c': "keep_running fuel interrupt (Suc n) = Some c'"
      and c: "c = (Sleep 1 # fst c', snd c')"
      by (auto simp: case_prod_unfold)
    from Suc.IH [OF c'] c show ?thesis by (simp add: not_schedule_def)
  qed
qed

lemma main_schedules_recursively:
  assumes "main fuel argv sys = Some (tr, r)" and "Observer_schedule p recursive \<in> set tr"
  shows "recursive \<and> p = argv ! 1"
proof -
  obtain c1 r1 where c1: "create_s3_client sys = (c1, r1)" by (cases "create_s3_client sys")
  obtain c2 r2 where c2: "validate_bucket sys (argv ! 2) = (c2, r2)"
    by (cases "validate_bucket sys (argv ! 2)")
  have n1: "\<forall>a \<in> set c1. not_schedule a" using create_s3_client_actions [of sys] c1 by simp
  have n2: "\<forall>a \<in> set c2. not_schedule a"
    using validate_bucket_actions [of sys "argv ! 2"] c2 by simp
  have n3: "\<forall>a \<in> set (fst (run_events h (fs_events sys))). not_schedule a" for h
    by (rule run_events_actions)
  have n4: "\<forall>a \<in> set (fst c). not_schedule a"
    if "keep_running fuel (keyboard_interrupt sys) 0 = Some c" for c
    using that by (rule keep_running_actions)
  have no: "\<not> not_schedule (Observer_schedule p recursive)" by (simp add: not_schedule_def)
  obtain m where m: "\<And>e. \<exists>m. main_except e = Some ([Log ERROR m], Sys_exit 1)"
    using main_except_exits by blast
  show ?thesis
  proof (cases "length argv < 3")
    case True
    with assms show ?thesis by (auto simp: main_usage)
  next
    case args: False
    show ?thesis
    proof (cases "path_exists sys (argv ! 1) \<and> path_isdir sys (argv ! 1)")
      case False
      with args assms main_bad_watch_path [of argv sys fuel] show ?thesis by auto
    next
      case True
      show ?thesis
      proof (cases r1)
        case (Raise e)
        with args True c1 main_client_fails [of argv sys c1 e fuel] assms n1 no show ?thesis
          by auto
      next
        case (Sys_exit k)
        with args True c1 assms n1 no show ?thesis
          by (auto simp: main_def bind_opt_simps comp_simps Let_def)
      next
        case (Return u)
        show ?thesis
        proof (cases r2)
          case (Raise e)
          with Return args True c1 c2 assms n1 n2 no m [of e] show ?thesis
            by (auto simp: main_def bind_opt_simps comp_simps Let_def)
        next
          case (Sys_exit k)
          with Return args True c1 c2 assms n1 n2 no show ?thesis
            by (auto simp: main_def bind_opt_simps comp_simps Let_def)
        next
          case valid: (Return ok)
          show ?thesis
          proof (cases "observer_schedule sys (argv ! 1) True")
            case (Some e)
            with valid Return args True c1 c2 assms n1 n2 no m [of e] show ?thesis
              by (cases ok)
                 (auto simp: main_def bind_opt_simps comp_simps Let_def S3FileHandler_def)
          next
            case scheduled: None
            show ?thesis
            proof (cases "observer_start sys")
              case (Some e)
              with scheduled valid Return args True c1 c2 assms n1 n2 no m [of e] show ?thesis
                by (cases ok)
                   (auto simp: main_def bind_opt_simps comp_simps Let_def S3FileHandler_def)
            next
              case started: None
              show ?thesis
              proof (cases "keep_running fuel (keyboard_interrupt sys) 0")
                case None
                with started scheduled valid Return args True c1 c2 assms n1 n2 no
                show ?thesis
                  by (cases ok)
                     (auto simp: main_def bind_opt_simps comp_simps Let_def S3FileHandler_def
                        observer_thread_def)
              next
                case (Some c)
                obtain c4 r4 where c4: "c = (c4, r4)" by (cases c)
                from n4 [OF Some] c4 have n4': "\<forall>a \<in> set c4. not_schedule a" by simp
                from Some c4 started scheduled valid Return args True c1 c2 assms n1 n2 n3 n4' no
                show ?thesis
                  by (cases ok; cases r4)
                     (auto simp: main_def bind_opt_simps comp_simps Let_def S3FileHandler_def
                        observer_thread_def main_except_def split: exn.splits)
              qed
            qed
          qed
        qed
      qed
    qed
  qed
qed

text \<open>
  Claim C9. The key is made from the last component of the path alone. Two events whose
  paths have the same name give requests with the same bucket and key, whatever the
  directories; and the name of \<open>d/f\<close> is \<open>f\<close> for every directory \<open>d\<close> (for a
  file name \<open>f\<close>: not empty, not \<^verbatim>\<open>.\<close>, without \<^verbatim>\<open>/\<close>), so a file \<open>f\<close>
  in one subdirectory and a file \<open>f\<close> in another are written to the same object.
  Every watch that \<^verbatim>\<open>main\<close> schedules is a recursive watch of the watch path, so
  the events of the subdirectories do reach the handler.
\<close>

theorem remote_key_of_base_name_only:
  "(path_name (src_path ev1) = path_name (src_path ev2) \<longrightarrow>
      (\<forall>r1 \<in> set (put_requests (fst (dispatch world1 self k1 ev1))).
       \<forall>r2 \<in> set (put_requests (fst (dispatch world2 self k2 ev2))).
         Bucket r1 = Bucket r2 \<and> Key r1 = Key r2))
   \<and> (f \<noteq> [] \<and> f \<noteq> ''.'' \<and> CHR ''/'' \<notin> set f \<longrightarrow>
        path_name (d1 @ ''/'' @ f) = f \<and> path_name (d2 @ ''/'' @ f) = f)
   \<and> (f \<noteq> [] \<and> f \<noteq> ''.'' \<and> CHR ''/'' \<notin> set f
        \<and> src_path ev1 = d1 @ ''/'' @ f \<and> src_path ev2 = d2 @ ''/'' @ f \<longrightarrow>
        (\<forall>r \<in> set (put_requests (fst (dispatch world1 self k1 ev1)))
               \<union> set (put_requests (fst (dispatch world2 self k2 ev2))).
           Bucket r = bucket_name self \<and> Key r = s3_prefix self @ f))
   \<and> (main fuel argv sys = Some (tr, res) \<and> Observer_schedule watched recursive \<in> set tr \<longrightarrow>
        recursive \<and> watched = argv ! 1)"
proof -
  have one: "Bucket r = bucket_name self \<and> Key r = s3_prefix self @ path_name (src_path e)"
    if "r \<in> set (put_requests (fst (dispatch w self kd e)))" for r w kd e
    using that by (auto simp: dispatch_requests split: if_splits sum.splits)
  have same: "Bucket r1 = Bucket r2 \<and> Key r1 = Key r2"
    if "path_name (src_path ev1) = path_name (src_path ev2)"
      and "r1 \<in> set (put_requests (fst (dispatch world1 self k1 ev1)))"
      and "r2 \<in> set (put_requests (fst (dispatch world2 self k2 ev2)))" for r1 r2
    using one [OF that(2)] one [OF that(3)] that(1) by simp
  have names: "path_name (d @ ''/'' @ f) = f"
    if "f \<noteq> [] \<and> f \<noteq> ''.'' \<and> CHR ''/'' \<notin> set f" for d
    using that by (intro path_name_join) auto
  have both: "Bucket r = bucket_name self \<and> Key r = s3_prefix self @ f"
    if "f \<noteq> [] \<and> f \<noteq> ''.'' \<and> CHR ''/'' \<notin> set f
        \<and> src_path ev1 = d1 @ ''/'' @ f \<and> src_path ev2 = d2 @ ''/'' @ f"
      and "r \<in> set (put_requests (fst (dispatch world1 self k1 ev1)))
               \<union> set (put_requests (fst (dispatch world2 self k2 ev2)))" for r
    using that names [of d1] names [of d2] one [of r world1 k1 ev1] one [of r world2 k2 ev2]
    by auto
  have tree: "recursive \<and> watched = argv ! 1"
    if "main fuel argv sys = Some (tr, res) \<and> Observer_schedule watched recursive \<in> set tr"
    using that main_schedules_recursively [of fuel argv sys tr res watched recursive] by blast
  from same names both tree show ?thesis by blast
qed

theorem remote_key_of_base_name_only_witness:
  "run_events docs_handler
     [(example_world ''draft'' None, Created,
         \<lparr>src_path = ''./docs/x/a.txt'', is_directory = False\<rparr>),
      (example_world ''final'' None, Created,
         \<lparr>src_path = ''./docs/y/z/a.txt'', is_directory = False\<rparr>)]
   = ([Log INFO (File_event ''created'' ''a.txt'' 5),
       Put_object \<lparr>Bucket = ''bucket'', Key = ''up/a.txt'', Body = ''draft'',
                    ContentType = ''text/plain''\<rparr>,
       Log INFO (Successfully_uploaded ''a.txt''),
       Log INFO (S3_URL ''https://bucket.s3.amazonaws.com/up/a.txt''),
       Log INFO (File_event ''created'' ''a.txt'' 5),
       Put_object \<lparr>Bucket = ''bucket'', Key = ''up/a.txt'', Body = ''final'',
                    ContentType = ''text/plain''\<rparr>,
       Log INFO (Successfully_uploaded ''a.txt''),
       Log INFO (S3_URL ''https://bucket.s3.amazonaws.com/up/a.txt'')],
      Return ())
   \<and> path_name ''./docs/x/a.txt'' = path_name ''./docs/y/z/a.txt''
   \<and> (\<exists>before after.
        main 1 [''s3_file_monitor.py'', ''./docs'', ''bucket'', ''up/''] (example_sys [''bucket''])
        = Some (before @ Observer_schedule ''./docs'' True # after, Return ()))"
proof -
  have "main 1 [''s3_file_monitor.py'', ''./docs'', ''bucket'', ''up/''] (example_sys [''bucket''])
        = Some ([Print Banner, Log INFO (Monitoring_folder ''/home/user/docs''),
                 Log INFO (S3_Bucket ''bucket''), Log INFO (S3_Prefix ''up/''),
                 Boto3_client, List_buckets, Head_bucket ''bucket'',
                 Log INFO AWS_S3_connection_successful, Head_bucket ''bucket'',
                 Log INFO (Bucket_exists_and_is_accessible ''bucket''),
                 Log INFO (Handler_initialized ''bucket'' ''up/'')]
                @ Observer_schedule ''./docs'' True
                # [Log INFO Starting_file_monitoring,
                   Print (Monitoring_started ''/home/user/docs''), Observer_start,
                   Log INFO Stopping_file_monitor, Observer_stop, Observer_join,
                   Log INFO File_monitor_stopped],
                Return ())"
    by code_simp
  then have watch: "\<exists>before after.
        main 1 [''s3_file_monitor.py'', ''./docs'', ''bucket'', ''up/''] (example_sys [''bucket''])
        = Some (before @ Observer_schedule ''./docs'' True # after, Return ())"
    by blast
  have run: "run_events docs_handler
     [(example_world ''draft'' None, Created,
         \<lparr>src_path = ''./docs/x/a.txt'', is_directory = False\<rparr>),
      (example_world ''final'' None, Created,
         \<lparr>src_path = ''./docs/y/z/a.txt'', is_directory = False\<rparr>)]
   = ([Log INFO (File_event ''created'' ''a.txt'' 5),
       Put_object \<lparr>Bucket = ''bucket'', Key = ''up/a.txt'', Body = ''draft'',
                    ContentType = ''text/plain''\<rparr>,
       Log INFO (Successfully_uploaded ''a.txt''),
       Log INFO (S3_URL ''https://bucket.s3.amazonaws.com/up/a.txt''),
       Log INFO (File_event ''created'' ''a.txt'' 5),
       Put_object \<lparr>Bucket = ''bucket'', Key = ''up/a.txt'', Body = ''final'',
                    ContentType = ''text/plain''\<rparr>,
       Log INFO (Successfully_uploaded ''a.txt''),
       Log INFO (S3_URL ''https://bucket.s3.amazonaws.com/up/a.txt'')],
      Return ())"
    by code_simp
  have "''a.txt'' \<noteq> [] \<and> ''a.txt'' \<noteq> ''.'' \<and> CHR ''/'' \<notin> set ''a.txt''" by simp
  with remote_key_of_base_name_only [of _ _ _ _ _ _ _ "''a.txt''" "''./docs/x''" "''./docs/y/z''"]
  have "path_name ''./docs/x/a.txt'' = path_name ''./docs/y/z/a.txt''" by simp
  with run watch show ?thesis by simp
qed

end
